theory Spec2Isabelle
  imports Main "HOL-Library.Log_Nat"
begin

section \<open>Python values used by the sequencer\<close>

text \<open>
  The sequencer (\<^verbatim>\<open>sequencer.py\<close>) is Python. Its integers are unbounded (\<^typ>\<open>int\<close>), its
  dictionaries keep insertion order (association lists), and its velocity arithmetic goes
  through binary64 floating point, which is modelled here on the rationals: every finite
  double is a rational, and an operation returns the correctly rounded exact result.
\<close>

datatype error =
  KeyError | OverflowError | ValueError | ZeroDivisionError | LoadError | RecursionError

subsection \<open>Insertion-ordered dictionaries\<close>

text \<open>\<^verbatim>\<open>d[k] = v\<close>: an existing key keeps its place, a new key goes to the end.\<close>

fun dict_set :: "('k \<times> 'v) list \<Rightarrow> 'k \<Rightarrow> 'v \<Rightarrow> ('k \<times> 'v) list" where
  "dict_set [] k v = [(k, v)]"
| "dict_set ((k', v') # d) k v = (if k' = k then (k, v) # d else (k', v') # dict_set d k v)"

text \<open>\<^verbatim>\<open>{key(item): val(item) for item in items}\<close>\<close>

fun dict_build :: "('k \<times> 'v) list \<Rightarrow> ('k \<times> 'v) list \<Rightarrow> ('k \<times> 'v) list" where
  "dict_build d [] = d"
| "dict_build d ((k, v) # items) = dict_build (dict_set d k v) items"

definition dict_of :: "('k \<times> 'v) list \<Rightarrow> ('k \<times> 'v) list" where
  "dict_of items = dict_build [] items"

definition keys :: "('k \<times> 'v) list \<Rightarrow> 'k list" where
  "keys d = map fst d"

subsection \<open>Binary64 floating point\<close>

text \<open>
  A Python float is a finite double, an infinity or a NaN. The two zeros are identified:
  nothing in the sequencer tells them apart.
\<close>

datatype pyfloat = Fin rat | PInf | NInf | NaN

text \<open>Round to the nearest integer, ties to the even one.\<close>

definition round_even :: "rat \<Rightarrow> int" where
  "round_even x =
     (let f = \<lfloor>x\<rfloor>; d = x - of_int f
      in if d < 1 / 2 then f else if 1 / 2 < d then f + 1 else if even f then f else f + 1)"

text \<open>The binary exponent \<open>\<lfloor>log\<^sub>2 x\<rfloor>\<close> of a positive rational, from the bit lengths of
  its numerator and denominator.\<close>

definition exponent2 :: "rat \<Rightarrow> int" where
  "exponent2 x =
     (let (p, q) = quotient_of x; d = bitlen p - bitlen q
      in if 2 powi d \<le> x then d else d - 1)"

text \<open>
  Rounding to binary64 with an unbounded exponent above: 53 significant bits, and a
  spacing of at least \<open>2\<^sup>-\<^sup>1\<^sup>0\<^sup>7\<^sup>4\<close> (the subnormal range).
\<close>

definition fl :: "rat \<Rightarrow> rat" where
  "fl x =
     (if x = 0 then 0
      else let q = max (exponent2 \<bar>x\<bar> - 52) (- 1074)
           in of_int (round_even (x / 2 powi q)) * 2 powi q)"

definition dbl_limit :: rat where
  "dbl_limit = 2 ^ 1024"

text \<open>An IEEE operation whose rounded result leaves the finite range gives an infinity.\<close>

definition ieee :: "rat \<Rightarrow> pyfloat" where
  "ieee x =
     (let y = fl x
      in if dbl_limit \<le> y then PInf else if y \<le> - dbl_limit then NInf else Fin y)"

text \<open>\<^verbatim>\<open>float(n)\<close> for an integer, also implicit in \<^verbatim>\<open>n * x\<close> and \<^verbatim>\<open>n / x\<close> with a float
  \<^verbatim>\<open>x\<close>: raises OverflowError when the integer is too large.\<close>

definition float_of_int :: "int \<Rightarrow> error + rat" where
  "float_of_int n =
     (let y = fl (of_int n)
      in if dbl_limit \<le> \<bar>y\<bar> then Inl OverflowError else Inr y)"

text \<open>\<^verbatim>\<open>a / b\<close> for two integers: Python's true division is correctly rounded.\<close>

definition int_truediv :: "int \<Rightarrow> int \<Rightarrow> error + rat" where
  "int_truediv a b =
     (if b = 0 then Inl ZeroDivisionError
      else let y = fl (of_int a / of_int b)
           in if dbl_limit \<le> \<bar>y\<bar> then Inl OverflowError else Inr y)"

fun sign_inf :: "bool \<Rightarrow> pyfloat" where
  "sign_inf True = PInf"
| "sign_inf False = NInf"

fun fmul :: "pyfloat \<Rightarrow> pyfloat \<Rightarrow> pyfloat" where
  "fmul NaN _ = NaN"
| "fmul _ NaN = NaN"
| "fmul (Fin a) (Fin b) = ieee (a * b)"
| "fmul (Fin a) PInf = (if a = 0 then NaN else sign_inf (0 < a))"
| "fmul (Fin a) NInf = (if a = 0 then NaN else sign_inf (a < 0))"
| "fmul PInf (Fin b) = (if b = 0 then NaN else sign_inf (0 < b))"
| "fmul NInf (Fin b) = (if b = 0 then NaN else sign_inf (b < 0))"
| "fmul PInf PInf = PInf"
| "fmul PInf NInf = NInf"
| "fmul NInf PInf = NInf"
| "fmul NInf NInf = PInf"

text \<open>\<^verbatim>\<open>int(x)\<close> truncates toward zero; an infinity raises OverflowError, a NaN
  ValueError.\<close>

definition trunc :: "rat \<Rightarrow> int" where
  "trunc x = (if 0 \<le> x then \<lfloor>x\<rfloor> else \<lceil>x\<rceil>)"

fun int_of_float :: "pyfloat \<Rightarrow> error + int" where
  "int_of_float (Fin x) = Inr (trunc x)"
| "int_of_float PInf = Inl OverflowError"
| "int_of_float NInf = Inl OverflowError"
| "int_of_float NaN = Inl ValueError"

text \<open>\<^verbatim>\<open>int(max(1, x))\<close> for a float \<^verbatim>\<open>x\<close>: \<^verbatim>\<open>max\<close> returns the integer 1 unless \<^verbatim>\<open>x > 1\<close>.\<close>

fun gt_one :: "pyfloat \<Rightarrow> bool" where
  "gt_one (Fin x) = (1 < x)"
| "gt_one PInf = True"
| "gt_one NInf = False"
| "gt_one NaN = False"

definition int_max_one :: "pyfloat \<Rightarrow> error + int" where
  "int_max_one x = (if gt_one x then int_of_float x else Inr 1)"

text \<open>\<^verbatim>\<open>str(n)\<close> for an integer.\<close>

definition digit_char :: "nat \<Rightarrow> char" where
  "digit_char d = ''0123456789'' ! d"

function str_nat :: "nat \<Rightarrow> string" where
  "str_nat n = (if n < 10 then [digit_char n] else str_nat (n div 10) @ [digit_char (n mod 10)])"
  by pat_completeness auto
termination
  by (relation "measure (\<lambda>n. n)") auto

declare str_nat.simps [simp del]

definition str_int :: "int \<Rightarrow> string" where
  "str_int n = (if n < 0 then CHR ''-'' # str_nat (nat (- n)) else str_nat (nat n))"

text \<open>A slice \<^verbatim>\<open>xs[:n]\<close>; a negative \<^verbatim>\<open>n\<close> counts from the end.\<close>

definition py_take :: "int \<Rightarrow> 'a list \<Rightarrow> 'a list" where
  "py_take n xs = (if 0 \<le> n then take (nat n) xs else take (length xs - nat (- n)) xs)"

section \<open>Configuration model\<close>

text \<open>One entry of the manifest \<^verbatim>\<open>config/session_servos.json\<close>.\<close>

record servo =
  servo_id :: int
  com_port :: string
  baud_rate :: int
  motor_type :: int

text \<open>One block of \<^verbatim>\<open>config/address.json\<close>: the control-table address and byte width of
  each register the sequencer uses.\<close>

record addr_block =
  torque_enable :: int
  len_torque_enable :: int
  present_position :: int
  len_present_position :: int
  goal_position :: int
  len_goal_position :: int
  profile_velocity :: int
  len_profile_velocity :: int
  moving :: int
  len_moving :: int

type_synonym manifest = "(int \<times> servo) list"
type_synonym address_map = "string \<rightharpoonup> addr_block"
type_synonym goals = "(int \<times> int) list"

text \<open>
  \<^verbatim>\<open>address_map.get(str(motor_type), address_map["default"])\<close>: Python evaluates the
  fallback argument first, so a map without a \<^verbatim>\<open>"default"\<close> block raises KeyError even
  when the motor type has a block of its own.
\<close>

definition get_address_info :: "int \<Rightarrow> address_map \<Rightarrow> error + addr_block" where
  "get_address_info mt address_map =
     (case address_map ''default'' of
        None \<Rightarrow> Inl KeyError
      | Some d \<Rightarrow> Inr (case address_map (str_int mt) of None \<Rightarrow> d | Some a \<Rightarrow> a))"

text \<open>\<^verbatim>\<open>get_address_info(servo_manifest[dxl_id]['motor_type'], address_map)\<close>\<close>

definition addr_of :: "manifest \<Rightarrow> address_map \<Rightarrow> int \<Rightarrow> error + addr_block" where
  "addr_of servo_manifest address_map dxl_id =
     (case map_of servo_manifest dxl_id of
        None \<Rightarrow> Inl KeyError
      | Some s \<Rightarrow> get_address_info (motor_type s) address_map)"

section \<open>The driver boundary\<close>

text \<open>
  The Dynamixel SDK is an external library. A grouped read (\<^verbatim>\<open>txRxPacket\<close>) is answered by
  the bus: whether the transaction succeeded, and for each actuator id whether its data
  arrived (\<^verbatim>\<open>isAvailable\<close>) and what it is (\<^verbatim>\<open>getData\<close>). The answers are an arbitrary
  sequence, one per read transaction in the order the run issues them; \<open>clock\<close> counts the
  read transactions issued so far. A grouped write (\<^verbatim>\<open>txPacket\<close>) is recorded with its port
  and the parameters added to it (id, address, width, bytes); its result is ignored by the
  sequencer. Progress messages put on the queue and sleeps are not modelled.
\<close>

record reply =
  comm_ok :: bool
  available :: "int \<Rightarrow> bool"
  rx_data :: "int \<Rightarrow> int"

type_synonym bus = "nat \<Rightarrow> reply"

type_synonym wparam = "int \<times> int \<times> int \<times> int list"

datatype tx = Tx string "wparam list"

record io =
  clock :: nat
  writes :: "tx list"

text \<open>How a call ends: it returns a value, raises an exception, or is still running when
  the fuel of the model is used up. Each carries the state of the bus at that point.\<close>

datatype 'a result = Ret 'a io | Exc error io | OutOfFuel

definition tick :: "io \<Rightarrow> io" where
  "tick s = s\<lparr>clock := Suc (clock s)\<rparr>"

text \<open>The SDK's byte macros, and the four little-endian bytes the sequencer builds.\<close>

definition DXL_LOWORD :: "int \<Rightarrow> int" where
  "DXL_LOWORD l = and l 65535"

definition DXL_HIWORD :: "int \<Rightarrow> int" where
  "DXL_HIWORD l = and (drop_bit 16 l) 65535"

definition DXL_LOBYTE :: "int \<Rightarrow> int" where
  "DXL_LOBYTE w = and w 255"

definition DXL_HIBYTE :: "int \<Rightarrow> int" where
  "DXL_HIBYTE w = and (drop_bit 8 w) 255"

definition dxl_bytes :: "int \<Rightarrow> int list" where
  "dxl_bytes v = [DXL_LOBYTE (DXL_LOWORD v), DXL_HIBYTE (DXL_LOWORD v),
                  DXL_LOBYTE (DXL_HIWORD v), DXL_HIBYTE (DXL_HIWORD v)]"

text \<open>The value a register of that many bytes holds after a write: the bytes read
  little-endian, the way the control table stores them.\<close>

fun le_value :: "int list \<Rightarrow> int" where
  "le_value [] = 0"
| "le_value (b # bs) = b + 256 * le_value bs"

section \<open>Synchronized move executor\<close>

text \<open>Lines 60-65 of \<^verbatim>\<open>execute_sync_move\<close>: the goals grouped by port, ids outside the
  manifest dropped.\<close>

fun group_goals :: "manifest \<Rightarrow> goals \<Rightarrow> (string \<times> goals) list \<Rightarrow> (string \<times> goals) list" where
  "group_goals servo_manifest [] moves_by_port = moves_by_port"
| "group_goals servo_manifest ((dxl_id, goal_pos) # rest) moves_by_port =
     (case map_of servo_manifest dxl_id of
        None \<Rightarrow> group_goals servo_manifest rest moves_by_port
      | Some s \<Rightarrow>
          (let port_name = com_port s;
               gs = (case map_of moves_by_port port_name of None \<Rightarrow> [] | Some g \<Rightarrow> g)
           in group_goals servo_manifest rest
                (dict_set moves_by_port port_name (dict_set gs dxl_id goal_pos))))"

text \<open>The \<^verbatim>\<open>addParam\<close> loop of a grouped read: one address lookup per id.\<close>

fun read_params ::
  "manifest \<Rightarrow> address_map \<Rightarrow> (addr_block \<Rightarrow> int \<times> int) \<Rightarrow> int list \<Rightarrow> error + (int \<times> int \<times> int) list" where
  "read_params servo_manifest address_map reg [] = Inr []"
| "read_params servo_manifest address_map reg (dxl_id # rest) =
     (case addr_of servo_manifest address_map dxl_id of
        Inl e \<Rightarrow> Inl e
      | Inr addr \<Rightarrow>
          (case read_params servo_manifest address_map reg rest of
             Inl e \<Rightarrow> Inl e
           | Inr ps \<Rightarrow> Inr ((dxl_id, reg addr) # ps)))"

text \<open>Lines 82-88: the travel of every actuator and the largest one.\<close>

fun travel_scan ::
  "manifest \<Rightarrow> address_map \<Rightarrow> reply \<Rightarrow> goals \<Rightarrow> int \<times> (int \<times> int) list \<Rightarrow> error + int \<times> (int \<times> int) list" where
  "travel_scan servo_manifest address_map r [] acc = Inr acc"
| "travel_scan servo_manifest address_map r ((dxl_id, goal_pos) # rest) (max_travel, servo_travel_data) =
     (case addr_of servo_manifest address_map dxl_id of
        Inl e \<Rightarrow> Inl e
      | Inr addr \<Rightarrow>
          (let present_pos = rx_data r dxl_id;
               travel = \<bar>goal_pos - present_pos\<bar>
           in travel_scan servo_manifest address_map r rest
                (if travel > max_travel then travel else max_travel,
                 dict_set servo_travel_data dxl_id travel)))"

text \<open>Line 93:
  \<^verbatim>\<open>velocity = int(max(1, (servo_travel_data[dxl_id] / max_travel) * base_velocity))\<close>\<close>

definition sync_velocity :: "int \<Rightarrow> int \<Rightarrow> int \<Rightarrow> error + int" where
  "sync_velocity travel max_travel base_velocity =
     (case int_truediv travel max_travel of
        Inl e \<Rightarrow> Inl e
      | Inr ratio \<Rightarrow>
          (case float_of_int base_velocity of
             Inl e \<Rightarrow> Inl e
           | Inr b \<Rightarrow> int_max_one (fmul (Fin ratio) (Fin b))))"

text \<open>Lines 91-103: the parameters of the velocity write and of the position write.\<close>

fun write_params ::
  "manifest \<Rightarrow> address_map \<Rightarrow> int \<Rightarrow> int \<Rightarrow> (int \<times> int) list \<Rightarrow> goals \<Rightarrow> error + wparam list \<times> wparam list" where
  "write_params servo_manifest address_map base_velocity max_travel servo_travel_data [] = Inr ([], [])"
| "write_params servo_manifest address_map base_velocity max_travel servo_travel_data ((dxl_id, goal_pos) # rest) =
     (case addr_of servo_manifest address_map dxl_id of
        Inl e \<Rightarrow> Inl e
      | Inr addr \<Rightarrow>
          (case map_of servo_travel_data dxl_id of
             None \<Rightarrow> Inl KeyError
           | Some travel \<Rightarrow>
               (case sync_velocity travel max_travel base_velocity of
                  Inl e \<Rightarrow> Inl e
                | Inr velocity \<Rightarrow>
                    (case write_params servo_manifest address_map base_velocity max_travel servo_travel_data rest of
                       Inl e \<Rightarrow> Inl e
                     | Inr (vel, pos) \<Rightarrow>
                         Inr ((dxl_id, profile_velocity addr, len_profile_velocity addr,
                               py_take (len_profile_velocity addr) (dxl_bytes velocity)) # vel,
                              (dxl_id, goal_position addr, len_goal_position addr,
                               py_take (len_goal_position addr) (dxl_bytes goal_pos)) # pos)))))"

text \<open>Lines 68-106: the body of the loop over the ports.\<close>

definition move_port ::
  "bus \<Rightarrow> manifest \<Rightarrow> string list \<Rightarrow> address_map \<Rightarrow> int \<Rightarrow> string \<times> goals \<Rightarrow> io \<Rightarrow> unit result" where
  "move_port env servo_manifest port_handlers address_map base_velocity move s =
     (let port_name = fst move; gs = snd move
      in if port_name \<notin> set port_handlers then Ret () s
         else
           (case read_params servo_manifest address_map
                   (\<lambda>a. (present_position a, len_present_position a)) (keys gs) of
              Inl e \<Rightarrow> Exc e s
            | Inr ps \<Rightarrow>
                (let r = env (clock s); s1 = tick s
                 in if \<not> comm_ok r then Ret () s1
                    else
                      (case travel_scan servo_manifest address_map r gs (0, []) of
                         Inl e \<Rightarrow> Exc e s1
                       | Inr (max_travel, servo_travel_data) \<Rightarrow>
                           if max_travel > 0 then
                             (case write_params servo_manifest address_map base_velocity
                                     max_travel servo_travel_data gs of
                                Inl e \<Rightarrow> Exc e s1
                              | Inr (vel, pos) \<Rightarrow>
                                  Ret () (s1\<lparr>writes := writes s1 @ [Tx port_name vel, Tx port_name pos]\<rparr>))
                           else Ret () s1))))"

fun move_ports ::
  "bus \<Rightarrow> manifest \<Rightarrow> string list \<Rightarrow> address_map \<Rightarrow> int \<Rightarrow> (string \<times> goals) list \<Rightarrow> io \<Rightarrow> unit result" where
  "move_ports env servo_manifest port_handlers address_map base_velocity [] s = Ret () s"
| "move_ports env servo_manifest port_handlers address_map base_velocity (move # rest) s =
     (case move_port env servo_manifest port_handlers address_map base_velocity move s of
        Ret _ s' \<Rightarrow> move_ports env servo_manifest port_handlers address_map base_velocity rest s'
      | Exc e s' \<Rightarrow> Exc e s'
      | OutOfFuel \<Rightarrow> OutOfFuel)"

definition execute_sync_move ::
  "bus \<Rightarrow> goals \<Rightarrow> int \<Rightarrow> manifest \<Rightarrow> string list \<Rightarrow> address_map \<Rightarrow> io \<Rightarrow> bool result" where
  "execute_sync_move env servo_goals base_velocity servo_manifest port_handlers address_map s =
     (case move_ports env servo_manifest port_handlers address_map base_velocity
             (group_goals servo_manifest servo_goals []) s of
        Ret _ s' \<Rightarrow> Ret True s'
      | Exc e s' \<Rightarrow> Exc e s'
      | OutOfFuel \<Rightarrow> OutOfFuel)"


section \<open>Completion poller\<close>

text \<open>Lines 112-117 of \<^verbatim>\<open>wait_for_move_completion\<close>: the ids grouped by port, ids outside the
  manifest skipped.\<close>

fun group_ids :: "manifest \<Rightarrow> int list \<Rightarrow> (string \<times> int list) list \<Rightarrow> (string \<times> int list) list" where
  "group_ids servo_manifest [] servos_by_port = servos_by_port"
| "group_ids servo_manifest (dxl_id # rest) servos_by_port =
     (case map_of servo_manifest dxl_id of
        None \<Rightarrow> group_ids servo_manifest rest servos_by_port
      | Some s \<Rightarrow>
          (let port_name = com_port s;
               ids = (case map_of servos_by_port port_name of None \<Rightarrow> [] | Some l \<Rightarrow> l)
           in group_ids servo_manifest rest (dict_set servos_by_port port_name (ids @ [dxl_id]))))"

text \<open>Lines 134-138: an actuator whose moving flag arrived and reads 0 is removed from the
  pending set (\<^verbatim>\<open>set.remove\<close> raises KeyError on a missing element).\<close>

fun stop_scan :: "manifest \<Rightarrow> address_map \<Rightarrow> reply \<Rightarrow> int list \<Rightarrow> int list \<Rightarrow> error + int list" where
  "stop_scan servo_manifest address_map r [] servos_to_check = Inr servos_to_check"
| "stop_scan servo_manifest address_map r (dxl_id # rest) servos_to_check =
     (case addr_of servo_manifest address_map dxl_id of
        Inl e \<Rightarrow> Inl e
      | Inr addr \<Rightarrow>
          if available r dxl_id \<and> rx_data r dxl_id = 0 then
            (if dxl_id \<in> set servos_to_check
             then stop_scan servo_manifest address_map r rest (removeAll dxl_id servos_to_check)
             else Inl KeyError)
          else stop_scan servo_manifest address_map r rest servos_to_check)"

text \<open>Lines 122-138: the body of the loop over the ports, within one polling cycle. The
  pending set \<^verbatim>\<open>servos_to_check\<close> is a list without duplicates; the order in which Python
  iterates over a set is not specified, and the model takes the order of the list.\<close>

definition poll_port ::
  "bus \<Rightarrow> manifest \<Rightarrow> string list \<Rightarrow> address_map \<Rightarrow> string \<times> int list \<Rightarrow> int list \<Rightarrow> io \<Rightarrow> int list result" where
  "poll_port env servo_manifest port_handlers address_map entry servos_to_check s =
     (let port_name = fst entry; all_ids_on_port = snd entry;
          ids_to_poll = filter (\<lambda>i. i \<in> set all_ids_on_port) servos_to_check
      in if ids_to_poll = [] then Ret servos_to_check s
         else if port_name \<notin> set port_handlers then Ret servos_to_check s
         else
           (case read_params servo_manifest address_map (\<lambda>a. (moving a, len_moving a)) ids_to_poll of
              Inl e \<Rightarrow> Exc e s
            | Inr ps \<Rightarrow>
                (let r = env (clock s); s1 = tick s
                 in if \<not> comm_ok r then Ret servos_to_check s1
                    else
                      (case stop_scan servo_manifest address_map r ids_to_poll servos_to_check of
                         Inl e \<Rightarrow> Exc e s1
                       | Inr c \<Rightarrow> Ret c s1))))"

text \<open>Lines 121-138: one polling cycle, the body of the \<^verbatim>\<open>while\<close> loop.\<close>

fun poll_ports ::
  "bus \<Rightarrow> manifest \<Rightarrow> string list \<Rightarrow> address_map \<Rightarrow> (string \<times> int list) list \<Rightarrow> int list \<Rightarrow> io \<Rightarrow> int list result" where
  "poll_ports env servo_manifest port_handlers address_map [] servos_to_check s = Ret servos_to_check s"
| "poll_ports env servo_manifest port_handlers address_map (entry # rest) servos_to_check s =
     (case poll_port env servo_manifest port_handlers address_map entry servos_to_check s of
        Ret c s' \<Rightarrow> poll_ports env servo_manifest port_handlers address_map rest c s'
      | Exc e s' \<Rightarrow> Exc e s'
      | OutOfFuel \<Rightarrow> OutOfFuel)"

text \<open>Lines 120-140: \<^verbatim>\<open>while servos_to_check:\<close>. The loop has no bound of its own; the
  fuel counts the cycles the model follows.\<close>

fun wait_loop ::
  "nat \<Rightarrow> bus \<Rightarrow> manifest \<Rightarrow> string list \<Rightarrow> address_map \<Rightarrow> (string \<times> int list) list \<Rightarrow> int list \<Rightarrow> io \<Rightarrow> unit result" where
  "wait_loop 0 env servo_manifest port_handlers address_map servos_by_port servos_to_check s =
     (if servos_to_check = [] then Ret () s else OutOfFuel)"
| "wait_loop (Suc fuel) env servo_manifest port_handlers address_map servos_by_port servos_to_check s =
     (if servos_to_check = [] then Ret () s
      else
        (case poll_ports env servo_manifest port_handlers address_map servos_by_port servos_to_check s of
           Ret c s' \<Rightarrow> wait_loop fuel env servo_manifest port_handlers address_map servos_by_port c s'
         | Exc e s' \<Rightarrow> Exc e s'
         | OutOfFuel \<Rightarrow> OutOfFuel))"

definition wait_for_move_completion ::
  "nat \<Rightarrow> bus \<Rightarrow> goals \<Rightarrow> manifest \<Rightarrow> string list \<Rightarrow> address_map \<Rightarrow> io \<Rightarrow> unit result" where
  "wait_for_move_completion fuel env servo_goals servo_manifest port_handlers address_map s =
     (let servos_to_check = remdups (keys servo_goals);
          servos_by_port = group_ids servo_manifest servos_to_check []
      in wait_loop fuel env servo_manifest port_handlers address_map servos_by_port servos_to_check s)"

text \<open>The states the \<^verbatim>\<open>while\<close> loop passes through: \<open>cycles \<dots> c s c' s'\<close> holds when the
  loop, entered with pending set \<open>c\<close>, stands at its head with pending set \<open>c'\<close> after some
  number of complete polling cycles.\<close>

inductive cycles ::
  "bus \<Rightarrow> manifest \<Rightarrow> string list \<Rightarrow> address_map \<Rightarrow> (string \<times> int list) list \<Rightarrow>
   int list \<Rightarrow> io \<Rightarrow> int list \<Rightarrow> io \<Rightarrow> bool"
  for env servo_manifest port_handlers address_map servos_by_port where
  start: "cycles env servo_manifest port_handlers address_map servos_by_port c s c s"
| cycle: "cycles env servo_manifest port_handlers address_map servos_by_port c s c1 s1 \<Longrightarrow>
          c1 \<noteq> [] \<Longrightarrow>
          poll_ports env servo_manifest port_handlers address_map servos_by_port c1 s1 = Ret c2 s2 \<Longrightarrow>
          cycles env servo_manifest port_handlers address_map servos_by_port c s c2 s2"

text \<open>Every id in the grouped ids is filed under the port of its manifest entry.\<close>

definition filed :: "manifest \<Rightarrow> (string \<times> int list) list \<Rightarrow> bool" where
  "filed m sbp = (\<forall>(p, l) \<in> set sbp. \<forall>i \<in> set l. \<exists>sv. map_of m i = Some sv \<and> com_port sv = p)"

section \<open>Safety gate\<close>

text \<open>Lines 43-45 of \<^verbatim>\<open>check_torque_status\<close>: the \<^verbatim>\<open>addParam\<close> loop.\<close>

fun torque_params :: "address_map \<Rightarrow> servo list \<Rightarrow> error + (int \<times> int \<times> int) list" where
  "torque_params address_map [] = Inr []"
| "torque_params address_map (servo # rest) =
     (case get_address_info (motor_type servo) address_map of
        Inl e \<Rightarrow> Inl e
      | Inr addr \<Rightarrow>
          (case torque_params address_map rest of
             Inl e \<Rightarrow> Inl e
           | Inr ps \<Rightarrow> Inr ((servo_id servo, torque_enable addr, len_torque_enable addr) # ps)))"

text \<open>Lines 49-54: the first actuator whose flag did not arrive or is not 1 fails the check.\<close>

fun torque_scan :: "address_map \<Rightarrow> reply \<Rightarrow> servo list \<Rightarrow> error + bool" where
  "torque_scan address_map r [] = Inr True"
| "torque_scan address_map r (servo # rest) =
     (case get_address_info (motor_type servo) address_map of
        Inl e \<Rightarrow> Inl e
      | Inr addr \<Rightarrow>
          if \<not> available r (servo_id servo) \<or> rx_data r (servo_id servo) \<noteq> 1 then Inr False
          else torque_scan address_map r rest)"

definition servos_on :: "manifest \<Rightarrow> string \<Rightarrow> servo list" where
  "servos_on servo_manifest port_name = filter (\<lambda>s. com_port s = port_name) (map snd servo_manifest)"

fun check_ports :: "bus \<Rightarrow> manifest \<Rightarrow> address_map \<Rightarrow> string list \<Rightarrow> io \<Rightarrow> bool result" where
  "check_ports env servo_manifest address_map [] s = Ret True s"
| "check_ports env servo_manifest address_map (port_name # rest) s =
     (let servos_on_port = servos_on servo_manifest port_name
      in case torque_params address_map servos_on_port of
           Inl e \<Rightarrow> Exc e s
         | Inr ps \<Rightarrow>
             (let r = env (clock s); s1 = tick s
              in if \<not> comm_ok r then Ret False s1
                 else
                   (case torque_scan address_map r servos_on_port of
                      Inl e \<Rightarrow> Exc e s1
                    | Inr ok \<Rightarrow>
                        if ok then check_ports env servo_manifest address_map rest s1
                        else Ret False s1)))"

text \<open>The reply to the grouped read of the motion-enable flags is good: the transaction
  succeeded, and the flag of every actuator asked arrived and reads 1.\<close>

definition torque_ok :: "reply \<Rightarrow> servo list \<Rightarrow> bool" where
  "torque_ok r svs =
     (comm_ok r \<and> (\<forall>sv \<in> set svs. available r (servo_id sv) \<and> rx_data r (servo_id sv) = 1))"

definition check_torque_status ::
  "bus \<Rightarrow> manifest \<Rightarrow> string list \<Rightarrow> address_map \<Rightarrow> io \<Rightarrow> bool result" where
  "check_torque_status env servo_manifest port_handlers address_map s =
     check_ports env servo_manifest address_map port_handlers s"

section \<open>Sequence interpreter\<close>

text \<open>A step of a motion script (\<^verbatim>\<open>step.get('position_file')\<close>, \<^verbatim>\<open>step.get('speed', 100)\<close>,
  \<^verbatim>\<open>step.get('velocity', base_velocity)\<close>, \<^verbatim>\<open>step.get('delay_ms', 0)\<close>), a script, and the
  files a run reads: \<open>None\<close> is a file that cannot be read or parsed.\<close>

record step =
  step_position_file :: "string option"
  step_speed :: "int option"
  step_velocity :: "int option"
  step_delay_ms :: "int option"

record script =
  script_base_velocity :: "int option"
  script_sequence :: "step list"

record files =
  manifest_file :: "servo list option"
  address_file :: "address_map option"
  toml_files :: "string \<rightharpoonup> script"
  json_files :: "string \<rightharpoonup> (int \<times> int) list"

definition DEFAULT_BASE_VELOCITY :: int where
  "DEFAULT_BASE_VELOCITY = 150"

text \<open>\<^verbatim>\<open>str.lower\<close> on ASCII letters, \<^verbatim>\<open>str.endswith\<close>, and \<^verbatim>\<open>os.path.join\<close> with the POSIX
  separator.\<close>

definition lower_char :: "char \<Rightarrow> char" where
  "lower_char c =
     (let n = (of_char c :: nat) in if 65 \<le> n \<and> n \<le> 90 then char_of (n + 32) else c)"

definition lower :: "string \<Rightarrow> string" where
  "lower str = map lower_char str"

definition endswith :: "string \<Rightarrow> string \<Rightarrow> bool" where
  "endswith str suffix =
     (length suffix \<le> length str \<and> drop (length str - length suffix) str = suffix)"

definition path_join :: "string \<Rightarrow> string \<Rightarrow> string" where
  "path_join a b = (case b of c # _ \<Rightarrow> if c = CHR ''/'' then b else a @ ''/'' @ b | [] \<Rightarrow> a @ ''/'')"

text \<open>Lines 162-163: \<^verbatim>\<open>speed_multiplier * (step.get('speed', 100) / 100.0)\<close>, the multiplier
  handed to the nested script.\<close>

definition nested_multiplier :: "pyfloat \<Rightarrow> step \<Rightarrow> error + pyfloat" where
  "nested_multiplier speed_multiplier st =
     (case float_of_int (case step_speed st of None \<Rightarrow> 100 | Some p \<Rightarrow> p) of
        Inl e \<Rightarrow> Inl e
      | Inr p \<Rightarrow> Inr (fmul speed_multiplier (ieee (p / 100))))"

text \<open>Line 171: \<^verbatim>\<open>final_velocity = int(step_velocity * speed_multiplier)\<close>\<close>

definition final_velocity :: "int \<Rightarrow> pyfloat \<Rightarrow> error + int" where
  "final_velocity step_vel speed_multiplier =
     (case float_of_int step_vel of
        Inl e \<Rightarrow> Inl e
      | Inr v \<Rightarrow> int_of_float (fmul (Fin v) speed_multiplier))"

text \<open>\<^verbatim>\<open>if execute_sync_move(...): wait_for_move_completion(...)\<close>\<close>

definition move_and_wait ::
  "nat \<Rightarrow> bus \<Rightarrow> goals \<Rightarrow> int \<Rightarrow> manifest \<Rightarrow> string list \<Rightarrow> address_map \<Rightarrow> io \<Rightarrow> unit result" where
  "move_and_wait fuel env servo_goals vel servo_manifest port_handlers address_map s =
     (case execute_sync_move env servo_goals vel servo_manifest port_handlers address_map s of
        Ret ok s' \<Rightarrow>
          if ok then wait_for_move_completion fuel env servo_goals servo_manifest port_handlers address_map s'
          else Ret () s'
      | Exc e s' \<Rightarrow> Exc e s'
      | OutOfFuel \<Rightarrow> OutOfFuel)"

text \<open>\<^verbatim>\<open>try: ... except Exception as e: queue.put(...)\<close>\<close>

fun catch :: "unit result \<Rightarrow> unit result" where
  "catch (Exc e s) = Ret () s"
| "catch (Ret u s) = Ret u s"
| "catch OutOfFuel = OutOfFuel"

text \<open>Lines 166-177: a step that names a goal file.\<close>

definition leaf_step ::
  "nat \<Rightarrow> bus \<Rightarrow> files \<Rightarrow> int \<Rightarrow> step \<Rightarrow> string \<Rightarrow> pyfloat \<Rightarrow> manifest \<Rightarrow> string list \<Rightarrow> address_map \<Rightarrow> io \<Rightarrow> unit result" where
  "leaf_step fuel env fs base_vel st position_file speed_multiplier servo_manifest port_handlers address_map s =
     catch
       (case json_files fs (path_join ''position'' position_file) of
          None \<Rightarrow> Exc LoadError s
        | Some items \<Rightarrow>
            (let step_goals = dict_of items;
                 step_vel = (case step_velocity st of None \<Rightarrow> base_vel | Some v \<Rightarrow> v)
             in case final_velocity step_vel speed_multiplier of
                  Inl e \<Rightarrow> Exc e s
                | Inr final_vel \<Rightarrow>
                    move_and_wait fuel env step_goals final_vel servo_manifest port_handlers address_map s))"

text \<open>
  \<^verbatim>\<open>process_sequence\<close> (lines 144-183) and the loop over its steps. A script may name itself
  as a nested script, and nothing in the source stops the recursion; the interpreter does,
  since Python bounds the depth of its call stack. \<open>depth\<close> is the number of scripts the
  interpreter can still enter one inside the other. When it is used up, the call that should
  read the next script raises RecursionError. Where the interpreter raises it is not
  decided by the source: when it surfaces inside \<^verbatim>\<open>toml.load\<close> with stack left for the
  handler of lines 148-150, it is caught and the script counts as unreadable
  (\<open>limit_caught\<close>); otherwise it leaves \<^verbatim>\<open>process_sequence\<close>, whose recursive call on line 163
  stands outside every \<^verbatim>\<open>try\<close>. The fuel counts the cycles followed in each poll.
\<close>

fun process_sequence ::
  "nat \<Rightarrow> bool \<Rightarrow> nat \<Rightarrow> bus \<Rightarrow> files \<Rightarrow> string \<Rightarrow> pyfloat \<Rightarrow> manifest \<Rightarrow> string list \<Rightarrow> address_map \<Rightarrow> io \<Rightarrow> unit result"
and process_steps ::
  "nat \<Rightarrow> bool \<Rightarrow> nat \<Rightarrow> bus \<Rightarrow> files \<Rightarrow> int \<Rightarrow> step list \<Rightarrow> pyfloat \<Rightarrow> manifest \<Rightarrow> string list \<Rightarrow> address_map \<Rightarrow> io \<Rightarrow> unit result"
where
  "process_sequence 0 limit_caught fuel env fs filepath speed_multiplier servo_manifest port_handlers address_map s =
     (if limit_caught then Ret () s else Exc RecursionError s)"
| "process_sequence (Suc depth) limit_caught fuel env fs filepath speed_multiplier servo_manifest port_handlers address_map s =
     (case toml_files fs filepath of
        None \<Rightarrow> Ret () s
      | Some sequence_data \<Rightarrow>
          process_steps depth limit_caught fuel env fs
            (case script_base_velocity sequence_data of None \<Rightarrow> DEFAULT_BASE_VELOCITY | Some b \<Rightarrow> b)
            (script_sequence sequence_data) speed_multiplier servo_manifest port_handlers address_map s)"
| "process_steps depth limit_caught fuel env fs base_vel [] speed_multiplier servo_manifest port_handlers address_map s = Ret () s"
| "process_steps depth limit_caught fuel env fs base_vel (st # rest) speed_multiplier servo_manifest port_handlers address_map s =
     (case step_position_file st of
        None \<Rightarrow>
          process_steps depth limit_caught fuel env fs base_vel rest speed_multiplier
            servo_manifest port_handlers address_map s
      | Some position_file \<Rightarrow>
          if position_file = [] then
            process_steps depth limit_caught fuel env fs base_vel rest speed_multiplier
              servo_manifest port_handlers address_map s
          else
            (case
               (if endswith (lower position_file) ''.toml'' then
                  (case nested_multiplier speed_multiplier st of
                     Inl e \<Rightarrow> Exc e s
                   | Inr mult \<Rightarrow>
                       process_sequence depth limit_caught fuel env fs
                         (path_join ''animation'' position_file) mult
                         servo_manifest port_handlers address_map s)
                else if endswith (lower position_file) ''.json'' then
                  leaf_step fuel env fs base_vel st position_file speed_multiplier
                    servo_manifest port_handlers address_map s
                else Ret () s)
             of
               Ret u s' \<Rightarrow>
                 (case float_of_int (case step_delay_ms st of None \<Rightarrow> 0 | Some d \<Rightarrow> d) of
                    Inl e \<Rightarrow> Exc e s'
                  | Inr delay \<Rightarrow>
                      process_steps depth limit_caught fuel env fs base_vel rest speed_multiplier
                        servo_manifest port_handlers address_map s')
             | Exc e s' \<Rightarrow> Exc e s'
             | OutOfFuel \<Rightarrow> OutOfFuel))"

section \<open>A top-level run\<close>

text \<open>
  Opening a port: \<^verbatim>\<open>openPort()\<close> and \<^verbatim>\<open>setBaudRate(baud_rate)\<close> each answer yes or no (an
  exception they raise is caught and counts as no). \<open>port_handlers\<close> is the dictionary of
  the connections that were established, by port name.
\<close>

record ports =
  open_port :: "string \<Rightarrow> bool"
  set_baud :: "string \<Rightarrow> int \<Rightarrow> bool"

fun open_ports :: "ports \<Rightarrow> (string \<times> int) list \<Rightarrow> string list \<Rightarrow> string list" where
  "open_ports w [] port_handlers = port_handlers"
| "open_ports w ((port_name, baud) # rest) port_handlers =
     open_ports w rest
       (if open_port w port_name \<and> set_baud w port_name baud
        then (if port_name \<in> set port_handlers then port_handlers else port_handlers @ [port_name])
        else port_handlers)"

definition unique_ports :: "manifest \<Rightarrow> (string \<times> int) list" where
  "unique_ports servo_manifest = dict_of (map (\<lambda>s. (com_port s, baud_rate s)) (map snd servo_manifest))"

text \<open>How \<^verbatim>\<open>run_animation\<close> ends, with the connections it established, the connections on
  which it called \<^verbatim>\<open>closePort\<close>, and the state of the bus.\<close>

datatype ending = Finished | LoadFailed | OpenFailed | TorqueAbort | Uncaught error

datatype run_result = Ended ending "string list" "string list" io | StillRunning

definition io0 :: io where
  "io0 = \<lparr>clock = 0, writes = []\<rparr>"

definition run_script ::
  "nat \<Rightarrow> bool \<Rightarrow> nat \<Rightarrow> bus \<Rightarrow> files \<Rightarrow> string \<Rightarrow> manifest \<Rightarrow> string list \<Rightarrow> address_map \<Rightarrow> io \<Rightarrow> unit result" where
  "run_script depth limit_caught fuel env fs filename servo_manifest port_handlers address_map s =
     (if endswith (lower filename) ''.toml'' then
        process_sequence depth limit_caught fuel env fs (path_join ''animation'' filename) (Fin 1)
          servo_manifest port_handlers address_map s
      else if endswith (lower filename) ''.json'' then
        catch
          (case json_files fs (path_join ''position'' filename) of
             None \<Rightarrow> Exc LoadError s
           | Some items \<Rightarrow>
               move_and_wait fuel env (dict_of items) DEFAULT_BASE_VELOCITY
                 servo_manifest port_handlers address_map s)
      else Ret () s)"

definition run_animation ::
  "nat \<Rightarrow> bool \<Rightarrow> nat \<Rightarrow> bus \<Rightarrow> ports \<Rightarrow> files \<Rightarrow> string \<Rightarrow> run_result" where
  "run_animation depth limit_caught fuel env w fs filename =
     (case manifest_file fs of
        None \<Rightarrow> Ended LoadFailed [] [] io0
      | Some items \<Rightarrow>
          (case address_file fs of
             None \<Rightarrow> Ended LoadFailed [] [] io0
           | Some address_map \<Rightarrow>
               (let servo_manifest = dict_of (map (\<lambda>s. (servo_id s, s)) items);
                    port_handlers = open_ports w (unique_ports servo_manifest) []
                in if length port_handlers \<noteq> length (unique_ports servo_manifest)
                   then Ended OpenFailed port_handlers port_handlers io0
                   else
                     (case check_torque_status env servo_manifest port_handlers address_map io0 of
                        Exc e s \<Rightarrow> Ended (Uncaught e) port_handlers [] s
                      | OutOfFuel \<Rightarrow> StillRunning
                      | Ret ok s \<Rightarrow>
                          if \<not> ok then Ended TorqueAbort port_handlers port_handlers s
                          else
                            (case run_script depth limit_caught fuel env fs filename servo_manifest port_handlers
                                     address_map s of
                               Ret u s' \<Rightarrow> Ended Finished port_handlers port_handlers s'
                             | Exc e s' \<Rightarrow> Ended (Uncaught e) port_handlers [] s'
                             | OutOfFuel \<Rightarrow> StillRunning)))))"

section \<open>A rig for the examples\<close>

text \<open>Three actuators on one port, a register map with only a default block, a bus on
  which the first read finds every flag at 1 and every later read finds every register at 0
  (actuators at position 0, not moving), and the files of a small show.\<close>

definition rig_block :: addr_block where
  "rig_block =
     \<lparr>torque_enable = 64, len_torque_enable = 1,
      present_position = 132, len_present_position = 4,
      goal_position = 116, len_goal_position = 4,
      profile_velocity = 112, len_profile_velocity = 4,
      moving = 122, len_moving = 1\<rparr>"

definition rig_map :: address_map where
  "rig_map = [''default'' \<mapsto> rig_block]"

definition rig_servo :: "int \<Rightarrow> servo" where
  "rig_servo i = \<lparr>servo_id = i, com_port = ''A'', baud_rate = 57600, motor_type = 1060\<rparr>"

definition rig_items :: "servo list" where
  "rig_items = [rig_servo 1, rig_servo 2, rig_servo 3]"

definition rig_manifest :: manifest where
  "rig_manifest = dict_of (map (\<lambda>s. (servo_id s, s)) rig_items)"

definition enabled_reply :: reply where
  "enabled_reply = \<lparr>comm_ok = True, available = (\<lambda>i. True), rx_data = (\<lambda>i. 1)\<rparr>"

definition still_reply :: reply where
  "still_reply = \<lparr>comm_ok = True, available = (\<lambda>i. True), rx_data = (\<lambda>i. 0)\<rparr>"

definition lost_reply :: reply where
  "lost_reply = \<lparr>comm_ok = False, available = (\<lambda>i. False), rx_data = (\<lambda>i. 0)\<rparr>"


definition foreign_map :: address_map where
  "foreign_map = [''1020'' \<mapsto> rig_block]"

definition lost_bus :: bus where
  "lost_bus t = lost_reply"

definition still_bus :: bus where
  "still_bus t = still_reply"

definition rig_bus :: bus where
  "rig_bus t = (if t = 0 then enabled_reply else still_reply)"

definition rig_ports :: ports where
  "rig_ports = \<lparr>open_port = (\<lambda>p. True), set_baud = (\<lambda>p b. True)\<rparr>"



definition pose :: goals where
  "pose = [(1, 100), (2, 50), (3, 25)]"

definition at_rest :: goals where
  "at_rest = [(1, 0), (2, 0)]"

definition leaf :: "string \<Rightarrow> step" where
  "leaf f = \<lparr>step_position_file = Some f, step_speed = None, step_velocity = None, step_delay_ms = None\<rparr>"

definition nested :: "string \<Rightarrow> int \<Rightarrow> step" where
  "nested f p = \<lparr>step_position_file = Some f, step_speed = Some p, step_velocity = None, step_delay_ms = None\<rparr>"

definition rig_files :: files where
  "rig_files =
     \<lparr>manifest_file = Some rig_items,
      address_file = Some rig_map,
      toml_files =
        [''animation/deep.toml'' \<mapsto>
           \<lparr>script_base_velocity = None, script_sequence = [nested ''show.toml'' 50]\<rparr>,
         ''animation/show.toml'' \<mapsto>
           \<lparr>script_base_velocity = None, script_sequence = [nested ''half.toml'' 50]\<rparr>,
         ''animation/half.toml'' \<mapsto>
           \<lparr>script_base_velocity = Some 75, script_sequence = [leaf ''pose.json'']\<rparr>],
      json_files = [''position/pose.json'' \<mapsto> pose]\<rparr>"

section \<open>Properties of the floating-point model\<close>

text \<open>The exponent is a lower bound: \<open>2\<^sup>e \<le> x\<close>.\<close>

lemma exponent2_le:
  assumes "0 < x"
  shows "2 powi (exponent2 x) \<le> x"
proof -
  obtain p q where pq: "quotient_of x = (p, q)" by (cases "quotient_of x")
  have q: "0 < q" using pq by (rule quotient_of_denom_pos)
  have x: "x = of_int p / of_int q" using pq by (rule quotient_of_div)
  have p: "0 < p" using assms q x by (simp add: zero_less_divide_iff)
  let ?d = "bitlen p - bitlen q"
  show ?thesis
  proof (cases "2 powi ?d \<le> x")
    case True
    then show ?thesis by (simp add: exponent2_def pq)
  next
    case False
    have bp: "1 \<le> bitlen p" using p bitlen_eq_zero_iff [of p] bitlen_nonneg [of p] by linarith
    have bq: "0 \<le> bitlen q" by (rule bitlen_nonneg)
    have "(2::int) ^ nat (bitlen p - 1) \<le> p" using bitlen_bounds [OF p] by simp
    then have "(of_int ((2::int) ^ nat (bitlen p - 1)) :: rat) \<le> of_int p" by (simp only: of_int_le_iff)
    then have lo: "(2::rat) powi (bitlen p - 1) \<le> of_int p"
      using bp by (simp add: power_int_def)
    have "q < 2 ^ nat (bitlen q)" using bitlen_bounds [OF q] by simp
    then have "(of_int q :: rat) < of_int ((2::int) ^ nat (bitlen q))" by (simp only: of_int_less_iff)
    then have hi: "of_int q < (2::rat) powi (bitlen q)"
      using bq by (simp add: power_int_def)
    have "(2::rat) powi (?d - 1) = 2 powi (bitlen p - 1) / 2 powi (bitlen q)"
      using power_int_diff [of "2::rat" "bitlen p - 1" "bitlen q"] by (simp add: algebra_simps)
    also have "\<dots> \<le> of_int p / of_int q"
      using lo hi q p by (intro frac_le) auto
    finally have "(2::rat) powi (?d - 1) \<le> x" using x by simp
    then show ?thesis using False by (simp add: exponent2_def pq)
  qed
qed

lemma exponent2_less:
  assumes "0 < x" and "x < 2 powi k"
  shows "exponent2 x < k"
proof (rule ccontr)
  assume "\<not> exponent2 x < k"
  then have "k \<le> exponent2 x" by simp
  then have "(2::rat) powi k \<le> 2 powi (exponent2 x)" by (intro power_int_increasing) auto
  then show False using exponent2_le [OF assms(1)] assms(2) by linarith
qed

lemma round_even_of_int: "round_even (of_int k) = k"
  by (simp add: round_even_def)

lemma fl_exact:
  assumes x: "x = of_int m * 2 powi e" and m: "\<bar>m\<bar> < 2 ^ 53" and e: "- 1074 \<le> e"
  shows "fl x = x"
proof (cases "x = 0")
  case True
  then show ?thesis by (simp add: fl_def)
next
  case False
  define q where "q = max (exponent2 \<bar>x\<bar> - 52) (- 1074)"
  have ax: "\<bar>x\<bar> = of_int \<bar>m\<bar> * 2 powi e" by (simp add: x abs_mult power_int_abs)
  have "(of_int \<bar>m\<bar> :: rat) < of_int (2 ^ 53)" using m by (simp only: of_int_less_iff)
  then have "\<bar>x\<bar> < 2 ^ 53 * 2 powi e" unfolding ax by (intro mult_strict_right_mono) auto
  also have "\<dots> = 2 powi (53 + e)" by (simp add: power_int_add)
  finally have "exponent2 \<bar>x\<bar> < 53 + e" using False by (intro exponent2_less) auto
  then have qe: "q \<le> e" using e by (simp add: q_def)
  have "x / 2 powi q = of_int m * 2 powi (e - q)" by (simp add: x power_int_diff)
  also have "\<dots> = of_int (m * 2 ^ nat (e - q))" using qe by (simp add: power_int_def)
  finally have r: "round_even (x / 2 powi q) = m * 2 ^ nat (e - q)" by (simp only: round_even_of_int)
  have "fl x = of_int (m * 2 ^ nat (e - q)) * 2 powi q"
    using False r by (simp add: fl_def q_def Let_def)
  also have "\<dots> = of_int m * (2 powi (e - q) * 2 powi q)" using qe by (simp add: power_int_def)
  also have "\<dots> = x" by (simp add: x flip: power_int_add)
  finally show ?thesis .
qed

lemma fl_of_int: "\<bar>n\<bar> < 2 ^ 53 \<Longrightarrow> fl (of_int n) = of_int n"
  using fl_exact [of "of_int n" n 0] by simp

lemma round_even_near: "\<bar>of_int (round_even y) - y\<bar> \<le> 1"
proof -
  have "of_int \<lfloor>y\<rfloor> \<le> y" "y < of_int \<lfloor>y\<rfloor> + 1" by linarith+
  then show ?thesis by (auto simp: round_even_def Let_def)
qed

lemma fl_error:
  assumes "x \<noteq> 0"
  shows "\<bar>fl x - x\<bar> \<le> 2 powi (max (exponent2 \<bar>x\<bar> - 52) (- 1074))"
proof -
  define q where "q = max (exponent2 \<bar>x\<bar> - 52) (- 1074)"
  define u :: rat where "u = 2 powi q"
  have u: "0 < u" by (simp add: u_def)
  have "fl x - x = (of_int (round_even (x / u)) - x / u) * u"
    using assms u by (simp add: fl_def q_def u_def Let_def algebra_simps)
  then have "\<bar>fl x - x\<bar> = \<bar>of_int (round_even (x / u)) - x / u\<bar> * u"
    using u by (simp add: abs_mult)
  also have "\<dots> \<le> 1 * u"
    using u round_even_near [of "x / u"] by (intro mult_right_mono) auto
  finally show ?thesis by (simp add: u_def q_def)
qed

lemma fl_bound: "\<bar>fl x\<bar> \<le> 2 * \<bar>x\<bar> + 1"
proof (cases "x = 0")
  case True
  then show ?thesis by (simp add: fl_def)
next
  case False
  then have pos: "0 < \<bar>x\<bar>" by simp
  have e: "(2::rat) powi (exponent2 \<bar>x\<bar>) \<le> \<bar>x\<bar>" using pos by (rule exponent2_le)
  have "(2::rat) powi (exponent2 \<bar>x\<bar> - 52) \<le> 2 powi (exponent2 \<bar>x\<bar>)"
    by (intro power_int_increasing) auto
  then have a: "(2::rat) powi (exponent2 \<bar>x\<bar> - 52) \<le> \<bar>x\<bar>" using e by linarith
  have "(2::rat) powi (- 1074) \<le> 2 powi 0" by (intro power_int_increasing) auto
  then have b: "(2::rat) powi (- 1074) \<le> 1" by simp
  have "(2::rat) powi (max (exponent2 \<bar>x\<bar> - 52) (- 1074)) \<le> \<bar>x\<bar> + 1"
    using a b pos by (cases "exponent2 \<bar>x\<bar> - 52 \<le> - 1074") (simp_all add: max_def)
  then show ?thesis using fl_error [OF False] by linarith
qed

lemma float_of_int_small: "\<bar>n\<bar> < 2 ^ 53 \<Longrightarrow> float_of_int n = Inr (of_int n)"
proof -
  assume n: "\<bar>n\<bar> < 2 ^ 53"
  then have "(of_int \<bar>n\<bar> :: rat) < of_int (2 ^ 53)" by (simp only: of_int_less_iff)
  then have "\<bar>of_int n :: rat\<bar> < 2 ^ 1024" by simp
  then show ?thesis using n by (simp add: float_of_int_def fl_of_int dbl_limit_def)
qed

lemma ieee_finite: "\<bar>x\<bar> \<le> 2 ^ 60 \<Longrightarrow> ieee x = Fin (fl x)"
proof -
  assume "\<bar>x\<bar> \<le> 2 ^ 60"
  then have "\<bar>fl x\<bar> < 2 ^ 1024" using fl_bound [of x] by simp
  then show ?thesis by (auto simp: ieee_def dbl_limit_def Let_def)
qed

lemma fl_unit_interval:
  assumes "0 \<le> x" "x \<le> 1"
  shows "\<bar>fl x\<bar> \<le> 3"
  using fl_bound [of x] assms by simp

lemma int_truediv_ratio:
  assumes "0 < b" "0 \<le> a" "a \<le> b"
  shows "int_truediv a b = Inr (fl (of_int a / of_int b))"
proof -
  have "0 \<le> (of_int a / of_int b :: rat)" "(of_int a / of_int b :: rat) \<le> 1"
    using assms by (simp_all add: divide_le_eq_1)
  then have "\<bar>fl (of_int a / of_int b)\<bar> \<le> 3" by (rule fl_unit_interval)
  then show ?thesis using assms by (simp add: int_truediv_def dbl_limit_def Let_def)
qed

lemma sync_velocity_formula:
  assumes "0 < max_travel" "0 \<le> travel" "travel \<le> max_travel" "\<bar>base_velocity\<bar> < 2 ^ 53"
  shows "sync_velocity travel max_travel base_velocity =
           Inr (let z = fl (fl (of_int travel / of_int max_travel) * of_int base_velocity)
                in if 1 < z then \<lfloor>z\<rfloor> else 1)"
proof -
  define r where "r = fl (of_int travel / of_int max_travel :: rat)"
  have "0 \<le> (of_int travel / of_int max_travel :: rat)" "(of_int travel / of_int max_travel :: rat) \<le> 1"
    using assms by (simp_all add: divide_le_eq_1)
  then have r: "\<bar>r\<bar> \<le> 3" unfolding r_def by (rule fl_unit_interval)
  have "(of_int \<bar>base_velocity\<bar> :: rat) < of_int (2 ^ 53)" using assms(4) by (simp only: of_int_less_iff)
  then have b: "\<bar>of_int base_velocity :: rat\<bar> \<le> 2 ^ 53" by simp
  have "\<bar>r * of_int base_velocity\<bar> \<le> 3 * 2 ^ 53"
    unfolding abs_mult using r b by (intro mult_mono) auto
  then have "ieee (r * of_int base_velocity) = Fin (fl (r * of_int base_velocity))"
    by (intro ieee_finite) simp
  then show ?thesis
    using assms int_truediv_ratio [of max_travel travel]
    by (simp add: sync_velocity_def float_of_int_small int_max_one_def trunc_def r_def Let_def)
qed

lemma sync_velocity_ge_1: "sync_velocity travel max_travel base_velocity = Inr v \<Longrightarrow> 1 \<le> v"
  by (cases "fmul (Fin (projr (int_truediv travel max_travel))) (Fin (projr (float_of_int base_velocity)))")
     (auto simp: sync_velocity_def int_max_one_def trunc_def split: sum.splits if_splits)

lemma fl_one: "fl 1 = 1"
  using fl_exact [of 1 1 0] by simp

lemma sync_velocity_max:
  assumes "0 < max_travel" "1 \<le> base_velocity" "base_velocity < 2 ^ 53"
  shows "sync_velocity max_travel max_travel base_velocity = Inr base_velocity"
  using assms sync_velocity_formula [of max_travel max_travel base_velocity]
  by (auto simp: fl_one fl_of_int Let_def)

lemma floor_numeral_div: "\<lfloor>numeral a / numeral b :: rat\<rfloor> = numeral a div numeral b"
  using floor_divide_of_int_eq [of "numeral a" "numeral b", where ?'a = rat] by simp

lemma fl_quarter: "fl (1 / 4) = 1 / 4" using fl_exact [of "1 / 4" 1 "- 2"] by simp
lemma fl_half: "fl (1 / 2) = 1 / 2" using fl_exact [of "1 / 2" 1 "- 1"] by simp
lemma fl_75_2: "fl (75 / 2) = 75 / 2" using fl_exact [of "75 / 2" 75 "- 1"] by simp

lemma sync_velocity_rig:
  "sync_velocity 100 100 150 = Inr 150" "sync_velocity 50 100 150 = Inr 75" "sync_velocity 25 100 150 = Inr 37"
  by (simp_all add: sync_velocity_formula floor_numeral_div fl_one fl_half fl_quarter fl_75_2 fl_of_int [of 150, simplified] fl_of_int [of 75, simplified])

section \<open>Properties of the executor\<close>

lemma map_of_dict_set: "map_of (dict_set d k v) = (map_of d)(k \<mapsto> v)"
  by (induction d k v rule: dict_set.induct) auto

lemma Max_insert_max:
  assumes "finite S"
  shows "Max (insert (max a t) S) = Max (insert a (insert t S))"
  using assms by (cases "S = {}") (simp_all add: max.assoc)

lemma travel_scan_data:
  assumes "travel_scan m am r gs (mx, d) = Inr (mx', d')" and "distinct (map fst gs)"
  shows "(\<forall>(i, g) \<in> set gs. map_of d' i = Some \<bar>g - rx_data r i\<bar>) \<and>
         (\<forall>i. i \<notin> fst ` set gs \<longrightarrow> map_of d' i = map_of d i) \<and>
         mx' = Max (insert mx ((\<lambda>(i, g). \<bar>g - rx_data r i\<bar>) ` set gs))"
  using assms
proof (induction gs arbitrary: mx d)
  case Nil
  then show ?case by simp
next
  case (Cons p gs)
  obtain i g where p: "p = (i, g)" by (cases p)
  define t where "t = \<bar>g - rx_data r i\<bar>"
  from Cons.prems(1) obtain a where a: "addr_of m am i = Inr a"
    by (auto simp: p split: sum.splits)
  from Cons.prems(1)
  have "travel_scan m am r gs (if t > mx then t else mx, dict_set d i t) = Inr (mx', d')"
    by (cases "t > mx") (simp_all add: p a t_def Let_def)
  moreover have "(if t > mx then t else mx) = max mx t" by (simp add: max_def)
  ultimately have rec: "travel_scan m am r gs (max mx t, dict_set d i t) = Inr (mx', d')"
    by (simp only:)
  from Cons.prems(2) have dist: "distinct (map fst gs)" and fresh: "i \<notin> fst ` set gs"
    by (simp_all add: p)
  note ih = Cons.IH [OF rec dist]
  have "map_of d' i = Some t" using ih fresh by (simp add: map_of_dict_set)
  moreover have "\<forall>j. j \<notin> fst ` set (p # gs) \<longrightarrow> map_of d' j = map_of d j"
    using ih by (simp add: p map_of_dict_set)
  moreover have "mx' = Max (insert mx ((\<lambda>(i, g). \<bar>g - rx_data r i\<bar>) ` set (p # gs)))"
    using ih by (simp add: p t_def Max_insert_max)
  ultimately show ?case using ih by (simp add: p t_def)
qed

lemma write_params_result:
  assumes "write_params m am bv mt d gs = Inr (vel, pos)"
  shows "map fst vel = map fst gs \<and> map fst pos = map fst gs \<and>
         (\<forall>(i, g) \<in> set gs. \<exists>a t v.
            addr_of m am i = Inr a \<and> map_of d i = Some t \<and> sync_velocity t mt bv = Inr v \<and>
            (i, profile_velocity a, len_profile_velocity a,
               py_take (len_profile_velocity a) (dxl_bytes v)) \<in> set vel \<and>
            (i, goal_position a, len_goal_position a,
               py_take (len_goal_position a) (dxl_bytes g)) \<in> set pos)"
  using assms
proof (induction gs arbitrary: vel pos)
  case Nil
  then show ?case by simp
next
  case (Cons p gs)
  obtain i g where p: "p = (i, g)" by (cases p)
  from Cons.prems obtain a t v vel' pos' where
    a: "addr_of m am i = Inr a" and t: "map_of d i = Some t" and v: "sync_velocity t mt bv = Inr v"
    and rec: "write_params m am bv mt d gs = Inr (vel', pos')"
    and vel: "vel = (i, profile_velocity a, len_profile_velocity a,
               py_take (len_profile_velocity a) (dxl_bytes v)) # vel'"
    and pos: "pos = (i, goal_position a, len_goal_position a,
               py_take (len_goal_position a) (dxl_bytes g)) # pos'"
    by (auto simp: p split: sum.splits option.splits prod.splits)
  note ih = Cons.IH [OF rec]
  show ?case using ih a t v by (auto simp: p vel pos)
qed

lemma str_int_1060: "str_int 1060 = ''1060''"
  by (simp add: str_int_def str_nat.simps digit_char_def)

lemma rig_manifest_eq: "rig_manifest = [(1, rig_servo 1), (2, rig_servo 2), (3, rig_servo 3)]"
  by (simp add: rig_manifest_def rig_items_def dict_of_def rig_servo_def)

lemma rig_addr_of:
  "addr_of rig_manifest rig_map i = (if i = 1 \<or> i = 2 \<or> i = 3 then Inr rig_block else Inl KeyError)"
  by (simp add: addr_of_def rig_manifest_eq rig_map_def get_address_info_def rig_servo_def str_int_1060)

lemma rig_group_goals: "group_goals rig_manifest pose [] = [(''A'', pose)]"
  by (simp add: rig_manifest_eq rig_servo_def pose_def)

lemma dxl_bytes_rig:
  "dxl_bytes 150 = [150, 0, 0, 0]" "dxl_bytes 75 = [75, 0, 0, 0]" "dxl_bytes 37 = [37, 0, 0, 0]"
  "dxl_bytes 100 = [100, 0, 0, 0]" "dxl_bytes 50 = [50, 0, 0, 0]" "dxl_bytes 25 = [25, 0, 0, 0]"
  by (simp_all add: dxl_bytes_def DXL_LOBYTE_def DXL_HIBYTE_def DXL_LOWORD_def DXL_HIWORD_def)

lemma rig_move_port:
  "move_port still_bus rig_manifest [''A''] rig_map 150 (''A'', pose) io0 =
     Ret () \<lparr>clock = 1, writes =
       [Tx ''A'' [(1, 112, 4, [150, 0, 0, 0]), (2, 112, 4, [75, 0, 0, 0]), (3, 112, 4, [37, 0, 0, 0])],
        Tx ''A'' [(1, 116, 4, [100, 0, 0, 0]), (2, 116, 4, [50, 0, 0, 0]), (3, 116, 4, [25, 0, 0, 0])]]\<rparr>"
  by (simp add: move_port_def keys_def pose_def rig_addr_of still_bus_def still_reply_def tick_def io0_def
        sync_velocity_rig rig_block_def py_take_def dxl_bytes_rig Let_def)

lemma rig_execute:
  "execute_sync_move still_bus pose 150 rig_manifest [''A''] rig_map io0 =
     Ret True \<lparr>clock = 1, writes =
       [Tx ''A'' [(1, 112, 4, [150, 0, 0, 0]), (2, 112, 4, [75, 0, 0, 0]), (3, 112, 4, [37, 0, 0, 0])],
        Tx ''A'' [(1, 116, 4, [100, 0, 0, 0]), (2, 116, 4, [50, 0, 0, 0]), (3, 116, 4, [25, 0, 0, 0])]]\<rparr>"
  by (simp add: execute_sync_move_def rig_group_goals rig_move_port)

lemma rig_max_travel:
  "Max (insert 0 ((\<lambda>(i, g). \<bar>g - rx_data (still_bus (clock io0)) i\<bar>) ` set pose)) = 100"
  by (simp add: pose_def still_bus_def still_reply_def)

lemma round_even_nonneg: "0 \<le> y \<Longrightarrow> 0 \<le> round_even y"
proof -
  assume "0 \<le> y"
  then have "0 \<le> \<lfloor>y\<rfloor>" by simp
  then show ?thesis by (auto simp: round_even_def Let_def)
qed

lemma round_even_nonpos: "y \<le> 0 \<Longrightarrow> round_even y \<le> 0"
proof (cases "y = 0")
  case True
  then show ?thesis by (simp add: round_even_def)
next
  case False
  assume "y \<le> 0"
  with False have "y < 0" by simp
  then have "\<lfloor>y\<rfloor> < 0" by (simp add: floor_less_iff)
  then show ?thesis by (auto simp: round_even_def Let_def)
qed

lemma fl_nonneg: "0 \<le> x \<Longrightarrow> 0 \<le> fl x"
proof -
  assume x: "0 \<le> x"
  have "0 \<le> of_int (round_even (x / 2 powi q)) * (2::rat) powi q" for q
  proof -
    have "0 \<le> x / 2 powi q" using x by simp
    then have "0 \<le> round_even (x / 2 powi q)" by (rule round_even_nonneg)
    then show ?thesis by simp
  qed
  then show ?thesis by (simp add: fl_def Let_def)
qed

lemma fl_nonpos: "x \<le> 0 \<Longrightarrow> fl x \<le> 0"
proof -
  assume x: "x \<le> 0"
  have "of_int (round_even (x / 2 powi q)) * (2::rat) powi q \<le> 0" for q
  proof -
    have "x / 2 powi q \<le> 0" using x by (simp add: divide_nonpos_pos)
    then have "round_even (x / 2 powi q) \<le> 0" by (rule round_even_nonpos)
    then have "(of_int (round_even (x / 2 powi q)) :: rat) \<le> 0" by simp
    then show ?thesis by (intro mult_nonpos_nonneg) simp_all
  qed
  then show ?thesis by (simp add: fl_def Let_def)
qed

lemma sync_velocity_nonpos:
  assumes bv: "base_velocity < 1" and t: "0 \<le> travel" and mt: "0 < max_travel"
    and v: "sync_velocity travel max_travel base_velocity = Inr v"
  shows "v = 1"
proof -
  define r where "r = fl (of_int travel / of_int max_travel)"
  define b where "b = fl (of_int base_velocity)"
  have r0: "0 \<le> r" unfolding r_def using t mt by (intro fl_nonneg) simp
  have "(of_int base_velocity :: rat) \<le> 0" using bv by simp
  then have b0: "b \<le> 0" unfolding b_def by (rule fl_nonpos)
  have "r * b \<le> 0" using r0 b0 by (rule mult_nonneg_nonpos)
  then have y0: "fl (r * b) \<le> 0" by (rule fl_nonpos)
  have lim: "0 < dbl_limit" by (simp add: dbl_limit_def)
  have "\<not> gt_one (ieee (r * b))"
    using y0 lim by (auto simp: ieee_def Let_def)
  moreover from v have "int_max_one (fmul (Fin r) (Fin b)) = Inr v"
    using mt by (auto simp: sync_velocity_def int_truediv_def float_of_int_def r_def b_def Let_def
                      split: if_splits)
  ultimately show ?thesis by (simp add: int_max_one_def)
qed

lemma word_bytes:
  "DXL_LOWORD v = v mod 65536" "DXL_HIWORD v = (v div 65536) mod 65536"
  "DXL_LOBYTE w = w mod 256" "DXL_HIBYTE w = (w div 256) mod 256"
proof -
  have m16: "(65535::int) = mask 16" and m8: "(255::int) = mask 8"
    by (simp_all add: mask_eq_exp_minus_1)
  show "DXL_LOWORD v = v mod 65536"
    unfolding DXL_LOWORD_def m16 by (simp add: take_bit_eq_mod flip: take_bit_eq_mask)
  show "DXL_HIWORD v = (v div 65536) mod 65536"
    unfolding DXL_HIWORD_def m16 by (simp add: take_bit_eq_mod drop_bit_eq_div flip: take_bit_eq_mask)
  show "DXL_LOBYTE w = w mod 256"
    unfolding DXL_LOBYTE_def m8 by (simp add: take_bit_eq_mod flip: take_bit_eq_mask)
  show "DXL_HIBYTE w = (w div 256) mod 256"
    unfolding DXL_HIBYTE_def m8 by (simp add: take_bit_eq_mod drop_bit_eq_div flip: take_bit_eq_mask)
qed

lemma dxl_bytes_value:
  assumes "0 \<le> v" and "0 \<le> n" and "n \<le> 4" and "v < 256 ^ nat n"
  shows "le_value (py_take n (dxl_bytes v)) = v"
proof -
  from assms(2,3) consider "n = 0" | "n = 1" | "n = 2" | "n = 3" | "n = 4" by linarith
  then show ?thesis
  proof cases
    case 1
    then show ?thesis using assms by (simp add: py_take_def)
  next
    case 2
    then have "v < 256" using assms(4) by simp
    then show ?thesis using assms(1) 2 by (simp add: py_take_def dxl_bytes_def word_bytes)
  next
    case 3
    then have "v < 65536" using assms(4) by simp
    then show ?thesis using assms(1) 3
      by (simp add: py_take_def dxl_bytes_def word_bytes numeral_2_eq_2; presburger)
  next
    case 4
    then have "v < 16777216" using assms(4) by simp
    then show ?thesis using assms(1) 4
      by (simp add: py_take_def dxl_bytes_def word_bytes numeral_3_eq_3; presburger)
  next
    case 5
    then have "v < 4294967296" using assms(4) by simp
    then show ?thesis using assms(1) 5
      by (simp add: py_take_def dxl_bytes_def word_bytes; presburger)
  qed
qed

text \<open>
  C1 (as amended). On a bus whose read succeeded and whose largest travel is positive, the
  velocity write carries one parameter per actuator of the sub-goal-set: the first
  \<^verbatim>\<open>len_profile_velocity\<close> of the four little-endian bytes of the velocity computed on line 93.
  That velocity is at least 1. For a base velocity below \<open>2\<^sup>5\<^sup>3\<close> in size it is the double
  product \<open>travel / max_travel * base_velocity\<close> truncated (not rounded) when the product
  exceeds 1, and 1 otherwise; for the actuator with the largest travel it is the base
  velocity itself when \<open>1 \<le> base_velocity < 2\<^sup>5\<^sup>3\<close>; and it is 1 for every actuator when the
  base velocity is below 1. The bytes written hold the velocity itself whenever it fits the
  register: a width from 0 to 4 and a velocity below \<open>256\<^sup>w\<^sup>i\<^sup>d\<^sup>t\<^sup>h\<close>.
\<close>

theorem executor_velocities:
  assumes port: "port_name \<in> set port_handlers"
    and ok: "comm_ok (env (clock s))"
    and dist: "distinct (map fst gs)"
    and mt: "max_travel = Max (insert 0 ((\<lambda>(i, g). \<bar>g - rx_data (env (clock s)) i\<bar>) ` set gs))"
    and pos: "0 < max_travel"
    and run: "move_port env m port_handlers am base_velocity (port_name, gs) s = Ret () s'"
  shows "\<exists>vel pos.
           writes s' = writes s @ [Tx port_name vel, Tx port_name pos] \<and>
           map fst vel = map fst gs \<and>
           (\<forall>(i, g) \<in> set gs. \<exists>a v.
              addr_of m am i = Inr a \<and>
              sync_velocity \<bar>g - rx_data (env (clock s)) i\<bar> max_travel base_velocity = Inr v \<and>
              (i, profile_velocity a, len_profile_velocity a,
                 py_take (len_profile_velocity a) (dxl_bytes v)) \<in> set vel \<and>
              1 \<le> v \<and>
              (\<bar>base_velocity\<bar> < 2 ^ 53 \<longrightarrow>
                 v = (let z = fl (fl (of_int \<bar>g - rx_data (env (clock s)) i\<bar> / of_int max_travel)
                                  * of_int base_velocity)
                      in if 1 < z then \<lfloor>z\<rfloor> else 1)) \<and>
              (\<bar>g - rx_data (env (clock s)) i\<bar> = max_travel \<and> 1 \<le> base_velocity \<and>
               base_velocity < 2 ^ 53 \<longrightarrow> v = base_velocity) \<and>
              (base_velocity < 1 \<longrightarrow> v = 1) \<and>
              (0 \<le> len_profile_velocity a \<and> len_profile_velocity a \<le> 4 \<and>
               v < 256 ^ nat (len_profile_velocity a) \<longrightarrow>
                 le_value (py_take (len_profile_velocity a) (dxl_bytes v)) = v))"
proof -
  define r where "r = env (clock s)"
  define travel where "travel = (\<lambda>(i, g). \<bar>g - rx_data r i\<bar>)"
  from run port ok obtain mx d vel pos where
    scan: "travel_scan m am r gs (0, []) = Inr (mx, d)" and
    wp: "mx > 0 \<longrightarrow> write_params m am base_velocity mx d gs = Inr (vel, pos)" and
    s': "mx > 0 \<longrightarrow> s' = (tick s)\<lparr>writes := writes (tick s) @ [Tx port_name vel, Tx port_name pos]\<rparr>"
    by (auto simp: move_port_def Let_def r_def split: sum.splits prod.splits if_splits)
  note sd = travel_scan_data [OF scan dist]
  have mx: "mx = max_travel" using sd mt by (simp add: r_def)
  then have mxpos: "0 < mx" using pos by simp
  note res = write_params_result [OF wp [rule_format, OF mxpos]]
  have le: "travel p \<le> max_travel" if "p \<in> set gs" for p
    unfolding mt travel_def r_def using that by (intro Max_ge) auto
  have "\<exists>a v. addr_of m am i = Inr a \<and>
              sync_velocity \<bar>g - rx_data r i\<bar> max_travel base_velocity = Inr v \<and>
              (i, profile_velocity a, len_profile_velocity a,
                 py_take (len_profile_velocity a) (dxl_bytes v)) \<in> set vel \<and>
              1 \<le> v \<and>
              (\<bar>base_velocity\<bar> < 2 ^ 53 \<longrightarrow>
                 v = (let z = fl (fl (of_int \<bar>g - rx_data r i\<bar> / of_int max_travel)
                                  * of_int base_velocity)
                      in if 1 < z then \<lfloor>z\<rfloor> else 1)) \<and>
              (\<bar>g - rx_data r i\<bar> = max_travel \<and> 1 \<le> base_velocity \<and>
               base_velocity < 2 ^ 53 \<longrightarrow> v = base_velocity) \<and>
              (base_velocity < 1 \<longrightarrow> v = 1) \<and>
              (0 \<le> len_profile_velocity a \<and> len_profile_velocity a \<le> 4 \<and>
               v < 256 ^ nat (len_profile_velocity a) \<longrightarrow>
                 le_value (py_take (len_profile_velocity a) (dxl_bytes v)) = v)"
    if ig: "(i, g) \<in> set gs" for i g
  proof -
    from res ig obtain a t v where
      a: "addr_of m am i = Inr a" and t: "map_of d i = Some t" and
      v: "sync_velocity t mx base_velocity = Inr v" and
      mem: "(i, profile_velocity a, len_profile_velocity a,
                 py_take (len_profile_velocity a) (dxl_bytes v)) \<in> set vel"
      by fastforce
    have t': "t = \<bar>g - rx_data r i\<bar>" using sd ig t by fastforce
    have tle: "t \<le> max_travel" using le [OF ig] by (simp add: travel_def t')
    have v1: "1 \<le> v" using v by (rule sync_velocity_ge_1)
    have f: "v = (let z = fl (fl (of_int t / of_int max_travel) * of_int base_velocity)
                      in if 1 < z then \<lfloor>z\<rfloor> else 1)" if "\<bar>base_velocity\<bar> < 2 ^ 53"
      using sync_velocity_formula [OF pos _ tle that] v by (simp add: mx t')
    have g: "v = base_velocity" if "t = max_travel" "1 \<le> base_velocity" "base_velocity < 2 ^ 53"
      using sync_velocity_max [OF pos that(2,3)] v that(1) by (simp add: mx)
    have h: "v = 1" if "base_velocity < 1"
      using sync_velocity_nonpos [OF that _ mxpos v] by (simp add: t')
    have k: "le_value (py_take (len_profile_velocity a) (dxl_bytes v)) = v"
      if "0 \<le> len_profile_velocity a \<and> len_profile_velocity a \<le> 4 \<and>
          v < 256 ^ nat (len_profile_velocity a)"
      using dxl_bytes_value [of v "len_profile_velocity a"] v1 that by simp
    have v': "sync_velocity \<bar>g - rx_data r i\<bar> max_travel base_velocity = Inr v"
      using v by (simp add: mx t')
    show ?thesis
      using a v' mem v1 f g h k by (intro exI [of _ a] exI [of _ v] conjI impI) (simp_all add: t')
  qed
  then show ?thesis
    using res s' mxpos by (auto simp: tick_def r_def)
qed

theorem executor_velocities_witness:
  "\<exists>vel pos.
     writes \<lparr>clock = 1, writes =
       [Tx ''A'' [(1, 112, 4, [150, 0, 0, 0]), (2, 112, 4, [75, 0, 0, 0]), (3, 112, 4, [37, 0, 0, 0])],
        Tx ''A'' [(1, 116, 4, [100, 0, 0, 0]), (2, 116, 4, [50, 0, 0, 0]), (3, 116, 4, [25, 0, 0, 0])]]\<rparr>
       = writes io0 @ [Tx ''A'' vel, Tx ''A'' pos] \<and>
     map fst vel = map fst pose \<and>
     (\<forall>(i, g) \<in> set pose. \<exists>a v.
        addr_of rig_manifest rig_map i = Inr a \<and>
        sync_velocity \<bar>g - rx_data (still_bus (clock io0)) i\<bar> 100 150 = Inr v \<and>
        (i, profile_velocity a, len_profile_velocity a,
           py_take (len_profile_velocity a) (dxl_bytes v)) \<in> set vel \<and>
        1 \<le> v \<and>
        (\<bar>150 :: int\<bar> < 2 ^ 53 \<longrightarrow>
           v = (let z = fl (fl (of_int \<bar>g - rx_data (still_bus (clock io0)) i\<bar> / of_int 100)
                            * of_int 150)
                in if 1 < z then \<lfloor>z\<rfloor> else 1)) \<and>
        (\<bar>g - rx_data (still_bus (clock io0)) i\<bar> = 100 \<and> (1 :: int) \<le> 150 \<and>
         (150 :: int) < 2 ^ 53 \<longrightarrow> v = 150) \<and>
        ((150 :: int) < 1 \<longrightarrow> v = 1) \<and>
        (0 \<le> len_profile_velocity a \<and> len_profile_velocity a \<le> 4 \<and>
         v < 256 ^ nat (len_profile_velocity a) \<longrightarrow>
           le_value (py_take (len_profile_velocity a) (dxl_bytes v)) = v))"
proof -
  have h1: "''A'' \<in> set [''A'']" by simp
  have h2: "comm_ok (still_bus (clock io0))" by (simp add: still_bus_def still_reply_def)
  have h3: "distinct (map fst pose)" by (simp add: pose_def)
  have h4: "(100::int) = Max (insert 0 ((\<lambda>(i, g). \<bar>g - rx_data (still_bus (clock io0)) i\<bar>) ` set pose))"
    by (simp add: rig_max_travel)
  have h5: "(0::int) < 100" by simp
  show ?thesis by (rule executor_velocities [OF h1 h2 h3 h4 h5 rig_move_port])
qed

text \<open>
  C1 as stated fails: with travels 100, 50 and 25 and base velocity 150 the third actuator
  is sent 37, the truncation of 37.5, where rounding gives 38; with base velocity 0 the
  actuator with the largest travel is sent 1, not the base velocity; and with base velocity
  \<open>2\<^sup>3\<^sup>2\<close> the velocity computed is \<open>2\<^sup>3\<^sup>2\<close> but the four bytes written are all 0.
\<close>

theorem executor_rounding_counterexample:
  "execute_sync_move still_bus pose 150 rig_manifest [''A''] rig_map io0 =
     Ret True \<lparr>clock = 1, writes =
       [Tx ''A'' [(1, 112, 4, [150, 0, 0, 0]), (2, 112, 4, [75, 0, 0, 0]), (3, 112, 4, [37, 0, 0, 0])],
        Tx ''A'' [(1, 116, 4, [100, 0, 0, 0]), (2, 116, 4, [50, 0, 0, 0]), (3, 116, 4, [25, 0, 0, 0])]]\<rparr> \<and>
   sync_velocity 25 100 150 = Inr 37 \<and>
   max 1 (round (25 / 100 * 150 :: rat)) = 38 \<and>
   sync_velocity 100 100 0 = Inr 1 \<and>
   sync_velocity 100 100 4294967296 = Inr 4294967296 \<and>
   py_take 4 (dxl_bytes 4294967296) = [0, 0, 0, 0]"
proof -
  have "round (25 / 100 * 150 :: rat) = 38"
    using floor_divide_of_int_eq [of 38 1, where ?'a = rat] by (simp add: round_def)
  moreover have "sync_velocity 100 100 0 = Inr 1"
    by (simp add: sync_velocity_formula fl_one fl_def)
  moreover have "sync_velocity 100 100 4294967296 = Inr 4294967296"
    by (rule sync_velocity_max) simp_all
  moreover have "py_take 4 (dxl_bytes 4294967296) = [0, 0, 0, 0]"
    by (simp add: py_take_def dxl_bytes_def word_bytes)
  ultimately show ?thesis by (simp add: rig_execute sync_velocity_rig)
qed

lemma travel_scan_max:
  assumes "travel_scan m am r gs (mx, d) = Inr (mx', d')"
  shows "mx' = Max (insert mx ((\<lambda>(i, g). \<bar>g - rx_data r i\<bar>) ` set gs))"
  using assms
proof (induction gs arbitrary: mx d)
  case Nil
  then show ?case by simp
next
  case (Cons p gs)
  obtain i g where p: "p = (i, g)" by (cases p)
  define t where "t = \<bar>g - rx_data r i\<bar>"
  from Cons.prems obtain a where a: "addr_of m am i = Inr a"
    by (auto simp: p split: sum.splits)
  from Cons.prems
  have "travel_scan m am r gs (if t > mx then t else mx, dict_set d i t) = Inr (mx', d')"
    by (cases "t > mx") (simp_all add: p a t_def Let_def)
  moreover have "(if t > mx then t else mx) = max mx t" by (simp add: max_def)
  ultimately have rec: "travel_scan m am r gs (max mx t, dict_set d i t) = Inr (mx', d')"
    by (simp only:)
  show ?case using Cons.IH [OF rec] by (simp add: p t_def Max_insert_max)
qed

text \<open>
  C9. If the largest travel of a bus's sub-goal-set is 0, the pass over that bus leaves the
  record of write transactions as it was, however the pass ends.
\<close>

theorem no_write_when_at_goal:
  assumes "Max (insert 0 ((\<lambda>(i, g). \<bar>g - rx_data (env (clock s)) i\<bar>) ` set gs)) = 0"
  shows "move_port env m port_handlers am base_velocity (port_name, gs) s \<noteq> OutOfFuel \<and>
         (\<forall>u s'. move_port env m port_handlers am base_velocity (port_name, gs) s = Ret u s'
                  \<longrightarrow> writes s' = writes s) \<and>
         (\<forall>e s'. move_port env m port_handlers am base_velocity (port_name, gs) s = Exc e s'
                  \<longrightarrow> writes s' = writes s)"
proof -
  have "mx = 0" if "travel_scan m am (env (clock s)) gs (0, []) = Inr (mx, d)" for mx d
    using travel_scan_max [OF that] assms by simp
  then show ?thesis
    by (auto simp: move_port_def Let_def tick_def split: sum.splits prod.splits if_splits)
qed

theorem no_write_when_at_goal_witness:
  "move_port still_bus rig_manifest [''A''] rig_map 150 (''A'', at_rest) io0 = Ret () \<lparr>clock = 1, writes = []\<rparr> \<and>
   writes \<lparr>clock = 1, writes = []\<rparr> = writes io0"
proof -
  have h: "Max (insert 0 ((\<lambda>(i, g). \<bar>g - rx_data (still_bus (clock io0)) i\<bar>) ` set at_rest)) = 0"
    by (simp add: at_rest_def still_bus_def still_reply_def)
  have r: "move_port still_bus rig_manifest [''A''] rig_map 150 (''A'', at_rest) io0 = Ret () \<lparr>clock = 1, writes = []\<rparr>"
    by (simp add: move_port_def keys_def at_rest_def rig_addr_of still_bus_def still_reply_def tick_def io0_def Let_def)
  from no_write_when_at_goal
         [where env = still_bus and s = io0 and gs = at_rest and m = rig_manifest
            and port_handlers = "[''A'']" and am = rig_map and base_velocity = 150
            and port_name = "''A''", OF h] r
  show ?thesis by simp
qed

lemma set_dict_set: "set (dict_set d k v) \<subseteq> insert (k, v) (set d)"
  by (induction d k v rule: dict_set.induct) auto

















section \<open>Properties of the poller\<close>

lemma stop_scan_shrinks:
  "stop_scan m am r ids c = Inr c' \<Longrightarrow> set c' \<subseteq> set c \<and> set c - set c' \<subseteq> set ids"
proof (induction ids arbitrary: c)
  case Nil
  then show ?case by simp
next
  case (Cons i ids)
  from Cons.prems obtain a where a: "addr_of m am i = Inr a" by (auto split: sum.splits)
  show ?case
  proof (cases "available r i \<and> rx_data r i = 0")
    case True
    with Cons.prems a have "stop_scan m am r ids (removeAll i c) = Inr c'"
      by (auto split: if_splits)
    from Cons.IH [OF this] show ?thesis by auto
  next
    case False
    with Cons.prems a have "stop_scan m am r ids c = Inr c'" by auto
    from Cons.IH [OF this] show ?thesis by auto
  qed
qed

lemma poll_port_shrinks:
  assumes "poll_port env m ph am entry c s = Ret c' s'"
  shows "set c' \<subseteq> set c \<and> set c - set c' \<subseteq> set (snd entry)"
proof -
  have "set c'' \<subseteq> set c \<and> set c - set c'' \<subseteq> set (snd entry)"
    if "stop_scan m am r (filter (\<lambda>i. i \<in> set (snd entry)) c) c = Inr c''" for r c''
    using stop_scan_shrinks [OF that] by auto
  then show ?thesis using assms
    by (auto simp: poll_port_def Let_def split: if_splits sum.splits)
qed

lemma poll_port_lost:
  "\<not> comm_ok (env (clock s)) \<Longrightarrow> poll_port env m ph am entry c s = Ret c' s' \<Longrightarrow> c' = c"
  by (auto simp: poll_port_def Let_def split: if_splits sum.splits)

lemma poll_ports_shrinks:
  "poll_ports env m ph am sbp c s = Ret c' s' \<Longrightarrow>
     set c' \<subseteq> set c \<and> set c - set c' \<subseteq> (\<Union>e \<in> set sbp. set (snd e))"
proof (induction sbp arbitrary: c s)
  case Nil
  then show ?case by simp
next
  case (Cons e sbp)
  from Cons.prems obtain c1 s1 where
    one: "poll_port env m ph am e c s = Ret c1 s1" and
    rest: "poll_ports env m ph am sbp c1 s1 = Ret c' s'"
    by (auto split: result.splits)
  from poll_port_shrinks [OF one] Cons.IH [OF rest] show ?case by auto
qed

lemma poll_ports_append:
  "poll_ports env m ph am (xs @ ys) c s =
     (case poll_ports env m ph am xs c s of
        Ret c1 s1 \<Rightarrow> poll_ports env m ph am ys c1 s1
      | Exc e s1 \<Rightarrow> Exc e s1
      | OutOfFuel \<Rightarrow> OutOfFuel)"
  by (induction xs arbitrary: c s) (auto split: result.splits)

lemma cycles_shrink:
  "cycles env m ph am sbp c s c' s' \<Longrightarrow> set c' \<subseteq> set c"
proof (induction rule: cycles.induct)
  case (start c s)
  then show ?case by simp
next
  case (cycle c s c1 s1 c2 s2)
  from poll_ports_shrinks [OF cycle.hyps(3)] cycle.IH show ?case by auto
qed

lemma keys_dict_set: "set (map fst (dict_set d k v)) = insert k (set (map fst d))"
  by (induction d k v rule: dict_set.induct) auto

lemma distinct_dict_set: "distinct (map fst d) \<Longrightarrow> distinct (map fst (dict_set d k v))"
proof (induction d k v rule: dict_set.induct)
  case (1 k v)
  then show ?case by simp
next
  case (2 k' v' d k v)
  then show ?case using keys_dict_set [of d k v] by auto
qed

lemma group_ids_filed:
  "filed m sbp \<Longrightarrow> distinct (map fst sbp) \<Longrightarrow>
     filed m (group_ids m ids sbp) \<and> distinct (map fst (group_ids m ids sbp))"
proof (induction ids arbitrary: sbp)
  case Nil
  then show ?case by simp
next
  case (Cons i ids)
  show ?case
  proof (cases "map_of m i")
    case None
    then show ?thesis using Cons by simp
  next
    case (Some sv)
    define l where "l = (case map_of sbp (com_port sv) of None \<Rightarrow> [] | Some l \<Rightarrow> l)"
    have old: "\<forall>j \<in> set l. \<exists>sv'. map_of m j = Some sv' \<and> com_port sv' = com_port sv"
    proof (cases "map_of sbp (com_port sv)")
      case None
      then show ?thesis by (simp add: l_def)
    next
      case (Some l0)
      then have "(com_port sv, l0) \<in> set sbp" by (rule map_of_SomeD)
      then show ?thesis using Cons.prems(1) Some by (auto simp: l_def filed_def)
    qed
    have "filed m (dict_set sbp (com_port sv) (l @ [i]))"
      unfolding filed_def
    proof (clarify)
      fix p l' j assume mem: "(p, l') \<in> set (dict_set sbp (com_port sv) (l @ [i]))" and j: "j \<in> set l'"
      from mem set_dict_set [of sbp "com_port sv" "l @ [i]"]
      consider "(p, l') = (com_port sv, l @ [i])" | "(p, l') \<in> set sbp" by auto
      then show "\<exists>sv. map_of m j = Some sv \<and> com_port sv = p"
      proof cases
        case 1
        then show ?thesis using j old Some by auto
      next
        case 2
        then show ?thesis using j Cons.prems(1) by (auto simp: filed_def)
      qed
    qed
    moreover have "distinct (map fst (dict_set sbp (com_port sv) (l @ [i])))"
      using Cons.prems(2) by (rule distinct_dict_set)
    ultimately show ?thesis using Cons.IH Some by (simp add: l_def Let_def)
  qed
qed

lemma filed_disjoint:
  assumes f: "filed m sbp" and l: "(p, l) \<in> set sbp" and k: "(q, k) \<in> set sbp" and ne: "p \<noteq> q"
  shows "set l \<inter> set k = {}"
proof (rule ccontr)
  assume "set l \<inter> set k \<noteq> {}"
  then obtain i where il: "i \<in> set l" and ik: "i \<in> set k" by auto
  from f l il obtain sv where a: "map_of m i = Some sv" "com_port sv = p"
    unfolding filed_def by fastforce
  from f k ik obtain sv' where b: "map_of m i = Some sv'" "com_port sv' = q"
    unfolding filed_def by fastforce
  from a b ne show False by simp
qed

lemma failed_bus_stays:
  assumes sbp: "sbp = group_ids m c0 []"
    and parts: "sbp = pre @ (p, ids) # post"
    and before: "poll_ports env m ph am pre c s = Ret c1 s1"
    and lost: "\<not> comm_ok (env (clock s1))"
    and whole: "poll_ports env m ph am sbp c s = Ret c' s'"
  shows "\<forall>i \<in> set ids. i \<in> set c \<longrightarrow> i \<in> set c'"
proof -
  have "filed m []" by (simp add: filed_def)
  moreover have "distinct (map fst ([] :: (string \<times> int list) list))" by simp
  ultimately have "filed m (group_ids m c0 []) \<and> distinct (map fst (group_ids m c0 []))"
    by (rule group_ids_filed)
  then have fd: "filed m sbp" and ds: "distinct (map fst sbp)" by (simp_all add: sbp)
  from ds have "distinct (map fst (pre @ (p, ids) # post))" by (simp only: parts)
  then have pn: "p \<notin> fst ` set pre" "p \<notin> fst ` set post" by auto
  have mem: "(p, ids) \<in> set sbp" by (simp add: parts)
  from whole have "poll_ports env m ph am (pre @ (p, ids) # post) c s = Ret c' s'"
    by (simp only: parts)
  with before have "poll_ports env m ph am ((p, ids) # post) c1 s1 = Ret c' s'"
    by (simp add: poll_ports_append)
  then obtain c2 s2 where
    one: "poll_port env m ph am (p, ids) c1 s1 = Ret c2 s2" and
    after: "poll_ports env m ph am post c2 s2 = Ret c' s'"
    by (auto split: result.splits)
  have c2: "c2 = c1" using lost one by (rule poll_port_lost)
  have other: "i \<notin> set (snd e)" if e: "e \<in> set pre \<or> e \<in> set post" and i: "i \<in> set ids" for e i
  proof -
    obtain q k where qk: "e = (q, k)" by (cases e)
    from e pn have ne: "p \<noteq> q" by (force simp: qk)
    from e have "(q, k) \<in> set sbp" by (auto simp: parts qk)
    from filed_disjoint [OF fd mem this ne] i show ?thesis by (auto simp: qk)
  qed
  show ?thesis
  proof (intro ballI impI)
    fix i assume i: "i \<in> set ids" "i \<in> set c"
    have "i \<notin> (\<Union>e \<in> set pre. set (snd e))" using other [OF _ i(1)] by blast
    with poll_ports_shrinks [OF before] i(2) have "i \<in> set c1" by blast
    moreover have "i \<notin> (\<Union>e \<in> set post. set (snd e))" using other [OF _ i(1)] by blast
    ultimately show "i \<in> set c'" using poll_ports_shrinks [OF after] c2 by blast
  qed
qed

text \<open>
  C8. However many polling cycles the loop has completed, the pending set it holds is a
  subset of the pending set it started with: nothing returns to it. And within a cycle, when
  the read on a bus fails, every actuator of that bus that was pending at the start of the
  cycle is still pending at its end.
\<close>

theorem pending_only_shrinks:
  "(cycles env m ph am sbp c s c' s' \<longrightarrow> set c' \<subseteq> set c) \<and>
   (sbp = group_ids m c0 [] \<and> sbp = pre @ (p, ids) # post \<and>
    poll_ports env m ph am pre c s = Ret c1 s1 \<and> \<not> comm_ok (env (clock s1)) \<and>
    poll_ports env m ph am sbp c s = Ret c'' s'' \<longrightarrow>
      (\<forall>i \<in> set ids. i \<in> set c \<longrightarrow> i \<in> set c''))"
proof (intro conjI impI)
  assume "cycles env m ph am sbp c s c' s'"
  then show "set c' \<subseteq> set c" by (rule cycles_shrink)
next
  assume h: "sbp = group_ids m c0 [] \<and> sbp = pre @ (p, ids) # post \<and>
    poll_ports env m ph am pre c s = Ret c1 s1 \<and> \<not> comm_ok (env (clock s1)) \<and>
    poll_ports env m ph am sbp c s = Ret c'' s''"
  show "\<forall>i \<in> set ids. i \<in> set c \<longrightarrow> i \<in> set c''"
    by (rule failed_bus_stays
          [OF h [THEN conjunct1] h [THEN conjunct2, THEN conjunct1]
              h [THEN conjunct2, THEN conjunct2, THEN conjunct1]
              h [THEN conjunct2, THEN conjunct2, THEN conjunct2, THEN conjunct1]
              h [THEN conjunct2, THEN conjunct2, THEN conjunct2, THEN conjunct2]])
qed

lemma rig_group_ids: "group_ids rig_manifest [1, 2, 3] [] = [(''A'', [1, 2, 3])]"
  by (simp add: rig_manifest_eq rig_servo_def)

lemma rig_poll_still:
  "poll_ports still_bus rig_manifest [''A''] rig_map [(''A'', [1, 2, 3])] [1, 2, 3] s = Ret [] (tick s)"
  by (simp add: poll_port_def rig_addr_of still_bus_def still_reply_def Let_def)

lemma rig_poll_lost:
  "poll_ports lost_bus rig_manifest [''A''] rig_map [(''A'', [1, 2, 3])] [1, 2, 3] s = Ret [1, 2, 3] (tick s)"
  by (simp add: poll_port_def rig_addr_of lost_bus_def lost_reply_def Let_def)

theorem pending_only_shrinks_witness:
  "cycles still_bus rig_manifest [''A''] rig_map [(''A'', [1, 2, 3])] [1, 2, 3] io0 [] (tick io0) \<and>
   set ([] :: int list) \<subseteq> set [1, 2, 3] \<and>
   poll_ports lost_bus rig_manifest [''A''] rig_map [(''A'', [1, 2, 3])] [1, 2, 3] io0
     = Ret [1, 2, 3] (tick io0) \<and>
   (1 :: int) \<in> set [1, 2, 3] \<and> (2 :: int) \<in> set [1, 2, 3] \<and> (3 :: int) \<in> set [1, 2, 3]"
proof -
  have c: "cycles still_bus rig_manifest [''A''] rig_map [(''A'', [1, 2, 3])] [1, 2, 3] io0 [] (tick io0)"
    by (rule cycles.cycle [OF cycles.start _ rig_poll_still]) simp
  have g: "[(''A'', [1, 2, 3])] = group_ids rig_manifest [1, 2, 3] []"
    by (rule rig_group_ids [symmetric])
  have sp: "[(''A'', [1, 2, 3 :: int])] = [] @ (''A'', [1, 2, 3]) # []" by simp
  have b: "poll_ports lost_bus rig_manifest [''A''] rig_map [] [1, 2, 3] io0 = Ret [1, 2, 3] io0" by simp
  have l: "\<not> comm_ok (lost_bus (clock io0))" by (simp add: lost_bus_def lost_reply_def)
  have w: "poll_ports lost_bus rig_manifest [''A''] rig_map [(''A'', [1, 2, 3])] [1, 2, 3] io0
     = Ret [1, 2, 3] (tick io0)" by (rule rig_poll_lost)
  note t1 = pending_only_shrinks
         [where env = still_bus and m = rig_manifest and ph = "[''A'']" and am = rig_map
            and sbp = "[(''A'', [1, 2, 3])]" and c = "[1, 2, 3]" and s = io0 and c' = "[]"
            and s' = "tick io0", THEN conjunct1]
  from t1 c have one: "set ([] :: int list) \<subseteq> set [1, 2, 3]" by (rule mp)
  note t2 = pending_only_shrinks
         [where env = lost_bus and m = rig_manifest and ph = "[''A'']" and am = rig_map
            and sbp = "[(''A'', [1, 2, 3])]" and ?c0.0 = "[1, 2, 3]" and pre = "[]" and p = "''A''"
            and ids = "[1, 2, 3]" and post = "[]" and c = "[1, 2, 3]" and s = io0
            and ?c1.0 = "[1, 2, 3]" and ?s1.0 = io0 and c'' = "[1, 2, 3]" and s'' = "tick io0",
          THEN conjunct2]
  have h: "[(''A'', [1, 2, 3])] = group_ids rig_manifest [1, 2, 3] [] \<and>
      [(''A'', [1, 2, 3 :: int])] = [] @ (''A'', [1, 2, 3]) # [] \<and>
      poll_ports lost_bus rig_manifest [''A''] rig_map [] [1, 2, 3] io0 = Ret [1, 2, 3] io0 \<and>
      \<not> comm_ok (lost_bus (clock io0)) \<and>
      poll_ports lost_bus rig_manifest [''A''] rig_map [(''A'', [1, 2, 3])] [1, 2, 3] io0
        = Ret [1, 2, 3] (tick io0)"
    by (intro conjI g sp b l w)
  from t2 h
  have two: "\<forall>i \<in> set [1, 2, 3 :: int]. i \<in> set [1, 2, 3 :: int] \<longrightarrow> i \<in> set [1, 2, 3 :: int]"
    by (rule mp)
  from two have three: "(1 :: int) \<in> set [1, 2, 3]" "(2 :: int) \<in> set [1, 2, 3]" "(3 :: int) \<in> set [1, 2, 3]"
    by simp_all
  show ?thesis by (intro conjI c one w three)
qed

lemma wait_loop_unknown:
  assumes "\<forall>e \<in> set sbp. i \<notin> set (snd e)"
  shows "i \<in> set c \<Longrightarrow> wait_loop n env m ph am sbp c s \<noteq> Ret u s'"
proof (induction n arbitrary: c s)
  case 0
  then show ?case by auto
next
  case (Suc n)
  then have ne: "c \<noteq> []" by auto
  show ?case
  proof (cases "poll_ports env m ph am sbp c s")
    case (Ret c1 s1)
    from poll_ports_shrinks [OF Ret] assms Suc.prems have "i \<in> set c1" by blast
    from Suc.IH [OF this] show ?thesis using ne Ret by simp
  next
    case (Exc e s1)
    then show ?thesis using ne by simp
  next
    case OutOfFuel
    then show ?thesis using ne by simp
  qed
qed

lemma poller_unknown_id_never_returns:
  assumes "map_of m i = None" and "i \<in> fst ` set servo_goals"
  shows "wait_for_move_completion fuel env servo_goals m ph am s \<noteq> Ret u s'"
proof -
  define c where "c = remdups (keys servo_goals)"
  have "filed m []" by (simp add: filed_def)
  moreover have "distinct (map fst ([] :: (string \<times> int list) list))" by simp
  ultimately have "filed m (group_ids m c [])" using group_ids_filed by blast
  then have "\<forall>e \<in> set (group_ids m c []). i \<notin> set (snd e)"
    using assms(1) unfolding filed_def by fastforce
  moreover have "i \<in> set c" using assms(2) by (simp add: c_def keys_def)
  ultimately show ?thesis
    unfolding wait_for_move_completion_def Let_def c_def [symmetric]
    by (rule wait_loop_unknown)
qed

lemma rig_wait_99:
  "wait_loop n still_bus rig_manifest [''A''] rig_map [(''A'', [1])] [99] s = OutOfFuel"
  by (induction n arbitrary: s) (simp_all add: poll_port_def Let_def)

text \<open>
  C2, at a goal set that names actuator 1 of the rig and an id 99 that the manifest does not
  have: actuator 1 reports that it has stopped at the first poll, and the poller is still
  running whatever the number of cycles followed. The pending set is seeded with every key
  of the goal set (line 111); only the grouping by port skips the ids outside the manifest.
\<close>

theorem poller_hangs_on_unknown_id:
  "wait_for_move_completion fuel still_bus [(1, 100), (99, 0)] rig_manifest [''A''] rig_map s = OutOfFuel"
proof -
  have g: "group_ids rig_manifest [1, 99] [] = [(''A'', [1])]"
    by (simp add: rig_manifest_eq rig_servo_def)
  have p: "poll_ports still_bus rig_manifest [''A''] rig_map [(''A'', [1])] [1, 99] s = Ret [99] (tick s)"
    by (simp add: poll_port_def rig_addr_of still_bus_def still_reply_def Let_def)
  have "wait_loop fuel still_bus rig_manifest [''A''] rig_map [(''A'', [1])] [1, 99] s = OutOfFuel"
    by (cases fuel) (simp_all add: p rig_wait_99 del: poll_ports.simps)
  then show ?thesis by (simp add: wait_for_move_completion_def keys_def g del: group_ids.simps)
qed

section \<open>Properties of a run\<close>







lemma torque_params_ok: "am ''default'' \<noteq> None \<Longrightarrow> \<exists>ps. torque_params am svs = Inr ps"
  by (induction svs) (auto simp: get_address_info_def split: option.splits)

lemma torque_scan_ok:
  "am ''default'' \<noteq> None \<Longrightarrow>
     torque_scan am r svs =
       Inr (\<forall>sv \<in> set svs. available r (servo_id sv) \<and> rx_data r (servo_id sv) = 1)"
  by (induction svs) (auto simp: get_address_info_def split: option.splits)

lemma check_ports_no_write:
  "check_ports env m am ph s = Ret b s' \<Longrightarrow> writes s' = writes s"
proof (induction ph arbitrary: s)
  case Nil
  then show ?case by simp
next
  case (Cons p ph)
  show ?case
  proof (cases "check_ports env m am ph (tick s) = Ret b s'")
    case True
    from Cons.IH [OF True] show ?thesis by (simp add: tick_def)
  next
    case False
    with Cons.prems have "s' = tick s"
      by (auto simp: Let_def split: sum.splits if_splits)
    then show ?thesis by (simp add: tick_def)
  qed
qed

lemma gate_fails:
  assumes dflt: "am ''default'' \<noteq> None"
  shows "k < length ph \<Longrightarrow> \<not> torque_ok (env (clock s + k)) (servos_on m (ph ! k)) \<Longrightarrow>
         \<exists>s'. check_ports env m am ph s = Ret False s'"
proof (induction ph arbitrary: s k)
  case Nil
  then show ?case by simp
next
  case (Cons p ph)
  from torque_params_ok [where am = am, OF dflt]
  obtain ps where ps: "torque_params am (servos_on m p) = Inr ps" by blast
  note scan = torque_scan_ok [where am = am, OF dflt, of "env (clock s)" "servos_on m p"]
  show ?case
  proof (cases "torque_ok (env (clock s)) (servos_on m p)")
    case False
    then show ?thesis using ps scan by (auto simp: Let_def torque_ok_def)
  next
    case True
    with Cons.prems(2) have "k \<noteq> 0" by (cases k) auto
    then obtain j where k: "k = Suc j" by (cases k) auto
    from Cons.prems have "j < length ph" "\<not> torque_ok (env (clock (tick s) + j)) (servos_on m (ph ! j))"
      by (simp_all add: k tick_def)
    from Cons.IH [OF this] obtain s' where "check_ports env m am ph (tick s) = Ret False s'" by blast
    then show ?thesis using True ps scan by (auto simp: Let_def torque_ok_def)
  qed
qed

text \<open>
  C4. With the files loaded, every bus open and a register map that resolves: if the reply
  to the safety gate's read on some bus is not good (the transaction failed, or the flag of
  an actuator of that bus did not arrive or does not read 1), the run ends as an abort with
  \<^verbatim>\<open>closePort\<close> called on every connection and no write transaction issued.
\<close>

theorem failed_gate_stops_run:
  assumes "manifest_file fs = Some items" and "address_file fs = Some am"
    and "m = dict_of (map (\<lambda>s. (servo_id s, s)) items)"
    and "ph = open_ports w (unique_ports m) []"
    and "length ph = length (unique_ports m)"
    and "am ''default'' \<noteq> None"
    and "k < length ph"
    and "\<not> torque_ok (env k) (servos_on m (ph ! k))"
  shows "\<exists>s. run_animation depth limit_caught fuel env w fs filename = Ended TorqueAbort ph ph s \<and> writes s = []"
proof -
  have "\<not> torque_ok (env (clock io0 + k)) (servos_on m (ph ! k))"
    using assms(8) by (simp add: io0_def)
  from gate_fails [where am = am and env = env and s = io0 and k = k and ph = ph and m = m,
         OF assms(6) assms(7) this]
  obtain s where s: "check_ports env m am ph io0 = Ret False s" by blast
  from check_ports_no_write [OF s] have "writes s = []" by (simp add: io0_def)
  moreover have "run_animation depth limit_caught fuel env w fs filename = Ended TorqueAbort ph ph s"
    using assms(1-5) s by (simp add: run_animation_def Let_def check_torque_status_def)
  ultimately show ?thesis by blast
qed

lemma catch_not_Exc: "catch r \<noteq> Exc x s"
  by (cases r) simp_all

text \<open>Whenever \<^verbatim>\<open>run_animation\<close> returns, it has called \<^verbatim>\<open>closePort\<close> on exactly the connections
  it established; and an exception raised in a step that names a goal file never leaves
  that step.\<close>

lemma returning_run_closes:
  "(run_animation depth limit_caught fuel env w fs filename = Ended e hs cl s \<and> (\<forall>x. e \<noteq> Uncaught x) \<longrightarrow> cl = hs) \<and>
   leaf_step fuel env fs base_vel st position_file mult m ph am s0 \<noteq> Exc x s1"
proof
  show "run_animation depth limit_caught fuel env w fs filename = Ended e hs cl s \<and> (\<forall>x. e \<noteq> Uncaught x) \<longrightarrow> cl = hs"
    by (auto simp: run_animation_def Let_def split: option.splits result.splits if_splits)
  show "leaf_step fuel env fs base_vel st position_file mult m ph am s0 \<noteq> Exc x s1"
    by (simp add: leaf_step_def catch_not_Exc)
qed

lemma rig_unique_ports: "unique_ports rig_manifest = [(''A'', 57600)]"
  by (simp add: unique_ports_def rig_manifest_eq rig_servo_def dict_of_def)

lemma rig_open_ports: "open_ports rig_ports [(''A'', 57600)] [] = [''A'']"
  by (simp add: rig_ports_def)

lemma rig_servos_on: "servos_on rig_manifest ''A'' = [rig_servo 1, rig_servo 2, rig_servo 3]"
  by (simp add: servos_on_def rig_manifest_eq rig_servo_def)

lemma rig_address_info: "get_address_info (motor_type (rig_servo i)) rig_map = Inr rig_block"
  by (simp add: get_address_info_def rig_map_def rig_servo_def str_int_1060)


lemma rig_check_enabled:
  "check_torque_status rig_bus rig_manifest [''A''] rig_map io0 = Ret True \<lparr>clock = 1, writes = []\<rparr>"
  by (simp add: check_torque_status_def rig_servos_on rig_address_info rig_bus_def enabled_reply_def
        tick_def io0_def Let_def)


theorem failed_gate_stops_run_witness:
  "\<exists>s. run_animation 2 True 1 still_bus rig_ports rig_files ''pose.json'' = Ended TorqueAbort [''A''] [''A''] s \<and>
       writes s = []"
proof -
  have h1: "manifest_file rig_files = Some rig_items" by (simp add: rig_files_def)
  have h2: "address_file rig_files = Some rig_map" by (simp add: rig_files_def)
  have h3: "rig_manifest = dict_of (map (\<lambda>s. (servo_id s, s)) rig_items)" by (rule rig_manifest_def)
  have h4: "[''A''] = open_ports rig_ports (unique_ports rig_manifest) []"
    by (simp only: rig_unique_ports rig_open_ports)
  have h5: "length [''A''] = length (unique_ports rig_manifest)" by (simp add: rig_unique_ports)
  have h6: "rig_map ''default'' \<noteq> None" by (simp add: rig_map_def)
  have h7: "0 < length [''A'']" by simp
  have h8: "\<not> torque_ok (still_bus 0) (servos_on rig_manifest ([''A''] ! 0))"
    by (auto simp: torque_ok_def still_bus_def still_reply_def rig_servos_on)
  show ?thesis
    by (rule failed_gate_stops_run
          [where env = still_bus and k = 0 and am = rig_map and fs = rig_files and w = rig_ports
             and m = rig_manifest and ph = "[''A'']" and items = rig_items,
           OF h1 h2 h3 h4 h5 h6 h7 h8])
qed



text \<open>
  C3, at a register map that holds a block for another motor type only, so that neither the
  type of the actuators nor the default resolves: the connection to port A is established,
  the safety gate raises KeyError, nothing catches it, and the run ends with \<^verbatim>\<open>closePort\<close>
  never called. The exits that \<^verbatim>\<open>run_animation\<close> takes by a \<^verbatim>\<open>return\<close> all close the
  connections; the exit by an exception does not.
\<close>

theorem exception_leaves_port_open:
  "run_animation 2 True 1 rig_bus rig_ports (rig_files\<lparr>address_file := Some foreign_map\<rparr>) ''show.toml'' =
     Ended (Uncaught KeyError) [''A''] [] io0"
proof -
  have "check_torque_status rig_bus rig_manifest [''A''] foreign_map io0 = Exc KeyError io0"
    by (simp add: check_torque_status_def rig_servos_on get_address_info_def foreign_map_def
          rig_servo_def str_int_1060)
  then show ?thesis
    by (simp add: run_animation_def rig_files_def rig_manifest_def [symmetric] rig_unique_ports
          rig_open_ports rig_ports_def Let_def)
qed

end
